theory Spec2Isabelle
  imports Complex_Main "HOL-Library.Sublist"
begin

section \<open>Data model of \<open>inst.js\<close>\<close>

text \<open>
  One instruction as the \<open>add\<close> handler writes it to \<open>inst.json\<close>. The field \<open>id\<close> is
  a JavaScript number that holds an integer; the arithmetic on it is that of doubles.
  Timestamps are the ISO strings produced by \<open>toISOString()\<close>; \<open>null\<close> is \<open>None\<close>.
\<close>

record instruction =
  inst_id :: int
  source :: string
  inst_text :: string
  added :: string
  priority :: string
  deadline :: "string option"
  status :: string
  isDeleted :: bool
  deletedAt :: "string option"

text \<open>An element of \<open>undoInst.json\<close> / \<open>redoInst.json\<close>: \<open>{ command, data }\<close>.\<close>

record entry =
  command :: string
  data :: "instruction list"

text \<open>
  The three files under \<open>~/.inst\<close>. Every function of the source that reads or writes
  them takes the state and returns the new one. Read and parse failures of the files are
  not modelled: a file holds a well-formed value.
\<close>

record state =
  DATA_PATH :: "instruction list"
  UNDO_STACK_FILE :: "entry list"
  REDO_STACK_FILE :: "entry list"

definition MAX_UNDO_REDO_STATES :: nat where
  "MAX_UNDO_REDO_STATES = 10"

text \<open>\<open>ensureDataFilesExist\<close>: each missing file is created holding \<open>[]\<close>.\<close>

definition initial_state :: state where
  "initial_state = \<lparr>DATA_PATH = [], UNDO_STACK_FILE = [], REDO_STACK_FILE = []\<rparr>"

section \<open>Store and history stacks\<close>

definition loadInstructions :: "state \<Rightarrow> instruction list" where
  "loadInstructions st = DATA_PATH st"

definition saveInstructions :: "instruction list \<Rightarrow> state \<Rightarrow> state" where
  "saveInstructions d st = st\<lparr>DATA_PATH := d\<rparr>"

text \<open>\<open>Array.prototype.shift\<close>: removes the first element; nothing happens on \<open>[]\<close>.\<close>

definition shift :: "'a list \<Rightarrow> 'a list" where
  "shift xs = (case xs of [] \<Rightarrow> [] | _ # r \<Rightarrow> r)"

definition pushToUndoStack :: "string \<Rightarrow> state \<Rightarrow> state" where
  "pushToUndoStack commandName st =
     (let undoStack = UNDO_STACK_FILE st;
          currentData = loadInstructions st;
          undoStack = undoStack @ [\<lparr>command = commandName, data = currentData\<rparr>];
          undoStack = (if length undoStack > MAX_UNDO_REDO_STATES then shift undoStack
                       else undoStack)
      in st\<lparr>UNDO_STACK_FILE := undoStack\<rparr>)"

definition pushToRedoStack :: "string \<Rightarrow> state \<Rightarrow> state" where
  "pushToRedoStack commandName st =
     (let redoStack = REDO_STACK_FILE st;
          currentData = loadInstructions st;
          redoStack = redoStack @ [\<lparr>command = commandName, data = currentData\<rparr>];
          redoStack = (if length redoStack > MAX_UNDO_REDO_STATES then shift redoStack
                       else redoStack)
      in st\<lparr>REDO_STACK_FILE := redoStack\<rparr>)"

text \<open>
  \<open>popFromUndoStack\<close> returns the reverted command's name, \<open>null\<close> (\<open>None\<close>) when the
  stack is empty. The popped stack is written last, after the redo push and the save.
\<close>

definition popFromUndoStack :: "state \<Rightarrow> string option \<times> state" where
  "popFromUndoStack st =
     (let undoStack = UNDO_STACK_FILE st in
      if length undoStack > 0 then
        (let prevState = last undoStack;
             undoStack = butlast undoStack;
             st = pushToRedoStack (command prevState) st;
             st = saveInstructions (data prevState) st;
             st = st\<lparr>UNDO_STACK_FILE := undoStack\<rparr>
         in (Some (command prevState), st))
      else (None, st))"

definition popFromRedoStack :: "state \<Rightarrow> string option \<times> state" where
  "popFromRedoStack st =
     (let redoStack = REDO_STACK_FILE st in
      if length redoStack > 0 then
        (let nextState = last redoStack;
             redoStack = butlast redoStack;
             st = pushToUndoStack (command nextState) st;
             st = saveInstructions (data nextState) st;
             st = st\<lparr>REDO_STACK_FILE := redoStack\<rparr>
         in (Some (command nextState), st))
      else (None, st))"

definition clearRedoStack :: "state \<Rightarrow> state" where
  "clearRedoStack st = st\<lparr>REDO_STACK_FILE := []\<rparr>"

section \<open>JavaScript helpers\<close>

text \<open>
  Truthiness of an optional string (\<open>if (argv.source)\<close>): \<open>undefined\<close>, \<open>null\<close> and
  the empty string are falsy. \<open>given\<close> returns the string when it is truthy.
\<close>

definition given :: "string option \<Rightarrow> string option" where
  "given x = (case x of None \<Rightarrow> None | Some s \<Rightarrow> if s = [] then None else Some s)"

text \<open>\<open>Array.prototype.findIndex\<close>: the first index whose element satisfies the
  predicate; \<open>-1\<close> is \<open>None\<close>.\<close>

fun findIndex :: "('a \<Rightarrow> bool) \<Rightarrow> 'a list \<Rightarrow> nat option" where
  "findIndex P [] = None"
| "findIndex P (x # xs) =
     (if P x then Some 0 else map_option Suc (findIndex P xs))"

text \<open>
  JavaScript numbers are doubles. The ids of the store are integers, and the sum of two
  integers is the double nearest to it, with ties going to the even significand:
  \<open>round_to_double\<close> of the exact sum. An integer of at most 53 binary digits is a
  double; beyond that the doubles are the multiples of a power of two. Overflow to
  \<open>Infinity\<close> (beyond \<open>2^1024\<close>) is not modelled.
\<close>

fun bit_length :: "nat \<Rightarrow> nat" where
  "bit_length n = (if n = 0 then 0 else Suc (bit_length (n div 2)))"

declare bit_length.simps [simp del]

definition round_to_double :: "int \<Rightarrow> int" where
  "round_to_double n =
     (let l = bit_length (nat \<bar>n\<bar>) in
      if l \<le> 53 then n
      else
        (let u = 2 ^ (l - 53); q = n div u; r = n mod u in
         if 2 * r < u then q * u
         else if 2 * r > u then (q + 1) * u
         else if even q then q * u else (q + 1) * u))"

text \<open>
  \<open>instructions.length > 0 ? Math.max(...instructions.map((i) => i.id)) + 1 : 1\<close>.
  \<open>Math.max\<close> folds \<open>max\<close> over its arguments; it is only called on a non-empty list.
  The spread passes one argument for each record, and the engine throws a \<open>RangeError\<close>
  when there are too many (in Node beyond a hundred thousand or so, depending on the
  stack size); the definition gives the value of the expression for the stores on which
  the call returns.
\<close>

definition newId :: "instruction list \<Rightarrow> int" where
  "newId instructions =
     (case map inst_id instructions of
        [] \<Rightarrow> 1
      | i # ids \<Rightarrow> round_to_double (foldl max i ids + 1))"

section \<open>Command handlers\<close>

text \<open>
  What a handler prints, one constructor for each message of the source:
  \<^item> \<open>InstructionAdded\<close>: "Instruction Added", with the id;
  \<^item> \<open>InvalidDeadlineFormat\<close>: "Invalid deadline format." (\<open>add\<close> and \<open>edit\<close>);
  \<^item> \<open>IdDoesNotExist\<close>: "This ID does not exist. No instruction found with ID: ..."
    (\<open>edit\<close> and \<open>mark\<close>);
  \<^item> \<open>CannotEditDeleted\<close>: "Cannot edit a deleted instruction. Recover first.";
  \<^item> \<open>CannotMarkDeleted\<close>: "Cannot mark a deleted instruction. Please recover it first.";
  \<^item> \<open>InstructionUpdated\<close>: "Instruction Updated";
  \<^item> \<open>NoChangesProvided\<close>: "No changes provided. To edit, supply an option like ...";
  \<^item> \<open>AlreadyMarked\<close>: "Instruction #id is already marked as "status". No change made.";
  \<^item> \<open>StatusUpdated\<close>: "Status Updated for ID" with the old and the new status, or the
    "Completed! Well done!" animation when the new status is \<open>completed\<close>;
  \<^item> \<open>DoesNotExistOrAlreadyDeleted\<close>: "This ID does not exist or is already deleted.
    No active instruction found with ID: ...";
  \<^item> \<open>InstructionDeleted\<close>: "Instruction Deleted";
  \<^item> \<open>DoesNotExistOrNotDeleted\<close>: "This ID does not exist or is not deleted. No deleted
    instruction found with ID: ...";
  \<^item> \<open>InstructionRecovered\<close>: "Instruction Recovered";
  \<^item> \<open>AllInstructionsErased\<close>: "All Instructions Erased";
  \<^item> \<open>OperationCancelled\<close>: "Operation cancelled.";
  \<^item> \<open>NothingToUndo\<close>, \<open>OperationUndone\<close>, \<open>NothingToRedo\<close>, \<open>OperationRedone\<close>;
  \<^item> \<open>NoOutput\<close>: the handler prints nothing.
\<close>

datatype outcome =
    InstructionAdded int
  | InvalidDeadlineFormat
  | IdDoesNotExist int
  | CannotEditDeleted
  | CannotMarkDeleted
  | InstructionUpdated int
  | NoChangesProvided
  | AlreadyMarked int string
  | StatusUpdated int string string
  | DoesNotExistOrAlreadyDeleted int
  | InstructionDeleted int
  | DoesNotExistOrNotDeleted int
  | InstructionRecovered int
  | AllInstructionsErased
  | OperationCancelled
  | NothingToUndo
  | OperationUndone string
  | NothingToRedo
  | OperationRedone string
  | NoOutput

text \<open>
  The parsed options of \<open>add\<close> and \<open>edit\<close> (\<open>argv\<close>). An option that was not passed
  is \<open>None\<close>.
\<close>

record add_argv =
  a_source :: string
  a_instruction :: string
  a_priority :: string
  a_deadline :: "string option"

record edit_argv =
  e_id :: int
  e_source :: "string option"
  e_instruction :: "string option"
  e_priority :: "string option"
  e_status :: "string option"
  e_deadline :: "string option"

text \<open>
  The handlers take what the source reads from outside the three files as arguments:
  \<^item> \<open>parseDate\<close>: \<open>chrono.parseDate\<close> followed by \<open>toISOString()\<close>; \<open>None\<close> is
    chrono's \<open>null\<close> (the phrase cannot be parsed);
  \<^item> \<open>now\<close>: \<open>new Date().toISOString()\<close>;
  \<^item> \<open>confirm\<close>: the answer to \<open>promptConfirmation\<close>.
  A handler returns what it prints and the state of the files when it ends.
\<close>

definition add_handler ::
  "(string \<Rightarrow> string option) \<Rightarrow> string \<Rightarrow> add_argv \<Rightarrow> state \<Rightarrow> outcome \<times> state" where
  "add_handler parseDate now argv st =
     (let st = pushToUndoStack ''add'' st;
          st = clearRedoStack st;
          instructions = loadInstructions st;
          newId = newId instructions;
          deadlineDate = (case given (a_deadline argv) of
                            Some d \<Rightarrow> parseDate d
                          | None \<Rightarrow> None)
      in if given (a_deadline argv) \<noteq> None \<and> deadlineDate = None
         then (InvalidDeadlineFormat, st)
         else
           (let instructions = instructions @
                  [\<lparr>inst_id = newId,
                    source = a_source argv,
                    inst_text = a_instruction argv,
                    added = now,
                    priority = a_priority argv,
                    deadline = deadlineDate,
                    status = ''pending'',
                    isDeleted = False,
                    deletedAt = None\<rparr>];
                st = saveInstructions instructions st
            in (InstructionAdded newId, st)))"

text \<open>
  \<open>edit\<close> assigns to the record in memory and saves only when \<open>changed\<close> is set; the
  return on an unparseable deadline leaves the files as they were.
\<close>

definition edit_handler ::
  "(string \<Rightarrow> string option) \<Rightarrow> edit_argv \<Rightarrow> state \<Rightarrow> outcome \<times> state" where
  "edit_handler parseDate argv st =
     (let instructions = loadInstructions st in
      case findIndex (\<lambda>inst. inst_id inst = e_id argv) instructions of
        None \<Rightarrow> (IdDoesNotExist (e_id argv), st)
      | Some instIndex \<Rightarrow>
          if isDeleted (instructions ! instIndex) then (CannotEditDeleted, st)
          else
            (let instToEdit = instructions ! instIndex;
                 changed = False;
                 (instToEdit, changed) =
                   (case given (e_source argv) of
                      Some s \<Rightarrow> (instToEdit\<lparr>source := s\<rparr>, True)
                    | None \<Rightarrow> (instToEdit, changed));
                 (instToEdit, changed) =
                   (case given (e_instruction argv) of
                      Some s \<Rightarrow> (instToEdit\<lparr>inst_text := s\<rparr>, True)
                    | None \<Rightarrow> (instToEdit, changed));
                 (instToEdit, changed) =
                   (case given (e_priority argv) of
                      Some s \<Rightarrow> (instToEdit\<lparr>priority := s\<rparr>, True)
                    | None \<Rightarrow> (instToEdit, changed));
                 (instToEdit, changed) =
                   (case given (e_status argv) of
                      Some s \<Rightarrow> (instToEdit\<lparr>status := s\<rparr>, True)
                    | None \<Rightarrow> (instToEdit, changed))
             in case (case given (e_deadline argv) of
                        Some d \<Rightarrow>
                          (case parseDate d of
                             None \<Rightarrow> None
                           | Some isoString \<Rightarrow> Some (instToEdit\<lparr>deadline := Some isoString\<rparr>, True))
                      | None \<Rightarrow> Some (instToEdit, changed)) of
                  None \<Rightarrow> (InvalidDeadlineFormat, st)
                | Some (instToEdit, changed) \<Rightarrow>
                    if changed then
                      (let st = pushToUndoStack ''edit'' st;
                           st = clearRedoStack st;
                           st = saveInstructions (instructions[instIndex := instToEdit]) st
                       in (InstructionUpdated (e_id argv), st))
                    else (NoChangesProvided, st)))"

definition mark_handler :: "int \<Rightarrow> string \<Rightarrow> state \<Rightarrow> outcome \<times> state" where
  "mark_handler argv_id argv_status st =
     (let instructions = loadInstructions st in
      case findIndex (\<lambda>inst. inst_id inst = argv_id) instructions of
        None \<Rightarrow> (IdDoesNotExist argv_id, st)
      | Some instIndex \<Rightarrow>
          if isDeleted (instructions ! instIndex) then (CannotMarkDeleted, st)
          else if status (instructions ! instIndex) = argv_status
          then (AlreadyMarked argv_id argv_status, st)
          else
            (let st = pushToUndoStack ''mark'' st;
                 st = clearRedoStack st;
                 oldStatus = status (instructions ! instIndex);
                 instructions =
                   instructions[instIndex := (instructions ! instIndex)\<lparr>status := argv_status\<rparr>];
                 st = saveInstructions instructions st
             in (StatusUpdated argv_id oldStatus argv_status, st)))"

definition delete_handler :: "bool \<Rightarrow> string \<Rightarrow> int \<Rightarrow> state \<Rightarrow> outcome \<times> state" where
  "delete_handler confirm now argv_id st =
     (let instructions = loadInstructions st in
      case findIndex (\<lambda>inst. inst_id inst = argv_id \<and> \<not> isDeleted inst) instructions of
        None \<Rightarrow> (DoesNotExistOrAlreadyDeleted argv_id, st)
      | Some instIndex \<Rightarrow>
          if confirm then
            (let st = pushToUndoStack ''delete'' st;
                 st = clearRedoStack st;
                 instructions =
                   instructions[instIndex :=
                     (instructions ! instIndex)\<lparr>isDeleted := True, deletedAt := Some now\<rparr>];
                 st = saveInstructions instructions st
             in (InstructionDeleted argv_id, st))
          else (OperationCancelled, st))"

definition recover_handler :: "int \<Rightarrow> state \<Rightarrow> outcome \<times> state" where
  "recover_handler argv_id st =
     (let instructions = loadInstructions st in
      case findIndex (\<lambda>inst. inst_id inst = argv_id) instructions of
        None \<Rightarrow> (DoesNotExistOrNotDeleted argv_id, st)
      | Some instIndex \<Rightarrow>
          if \<not> isDeleted (instructions ! instIndex)
          then (DoesNotExistOrNotDeleted argv_id, st)
          else
            (let st = pushToUndoStack ''recover'' st;
                 st = clearRedoStack st;
                 instructions =
                   instructions[instIndex :=
                     (instructions ! instIndex)\<lparr>isDeleted := False, deletedAt := None\<rparr>];
                 st = saveInstructions instructions st
             in (InstructionRecovered argv_id, st)))"

definition reset_handler :: "bool \<Rightarrow> state \<Rightarrow> outcome \<times> state" where
  "reset_handler confirm st =
     (if confirm then
        (let st = pushToUndoStack ''reset'' st;
             st = clearRedoStack st;
             st = saveInstructions [] st
         in (AllInstructionsErased, st))
      else (OperationCancelled, st))"

definition undo_handler :: "bool \<Rightarrow> state \<Rightarrow> outcome \<times> state" where
  "undo_handler confirm st =
     (let undoStack = UNDO_STACK_FILE st in
      if length undoStack = 0 then (NothingToUndo, st)
      else if confirm then
        (case popFromUndoStack st of
           (Some undoneCommand, st) \<Rightarrow>
             if undoneCommand \<noteq> [] then (OperationUndone undoneCommand, st)
             else (NoOutput, st)
         | (None, st) \<Rightarrow> (NoOutput, st))
      else (OperationCancelled, st))"

definition redo_handler :: "bool \<Rightarrow> state \<Rightarrow> outcome \<times> state" where
  "redo_handler confirm st =
     (let redoStack = REDO_STACK_FILE st in
      if length redoStack = 0 then (NothingToRedo, st)
      else if confirm then
        (case popFromRedoStack st of
           (Some redoneCommand, st) \<Rightarrow>
             if redoneCommand \<noteq> [] then (OperationRedone redoneCommand, st)
             else (NoOutput, st)
         | (None, st) \<Rightarrow> (NoOutput, st))
      else (OperationCancelled, st))"

text \<open>
  One invocation of the tool: the command line together with what the handler reads from
  the clock (\<open>now\<close>) and from the prompt (\<open>confirm\<close>).
\<close>

datatype invocation =
    Add string add_argv
  | Edit edit_argv
  | Mark int string
  | Delete bool string int
  | Recover int
  | Reset bool
  | Undo bool
  | Redo bool

fun invoke :: "(string \<Rightarrow> string option) \<Rightarrow> invocation \<Rightarrow> state \<Rightarrow> outcome \<times> state" where
  "invoke parseDate (Add now argv) st = add_handler parseDate now argv st"
| "invoke parseDate (Edit argv) st = edit_handler parseDate argv st"
| "invoke parseDate (Mark i s) st = mark_handler i s st"
| "invoke parseDate (Delete confirm now i) st = delete_handler confirm now i st"
| "invoke parseDate (Recover i) st = recover_handler i st"
| "invoke parseDate (Reset confirm) st = reset_handler confirm st"
| "invoke parseDate (Undo confirm) st = undo_handler confirm st"
| "invoke parseDate (Redo confirm) st = redo_handler confirm st"

text \<open>A session: the invocations run one after the other on the files; the outcomes are
  collected in order.\<close>

fun session ::
  "(string \<Rightarrow> string option) \<Rightarrow> invocation list \<Rightarrow> state \<Rightarrow> outcome list \<times> state" where
  "session parseDate [] st = ([], st)"
| "session parseDate (c # cs) st =
     (case invoke parseDate c st of
        (out, st') \<Rightarrow>
          (case session parseDate cs st' of (outs, st'') \<Rightarrow> (out # outs, st'')))"

section \<open>Strings and numbers of JavaScript\<close>

text \<open>
  A string is the list of the bytes of its UTF-8 encoding: a character outside ASCII is
  several bytes. \<open>String.prototype.toLowerCase\<close> follows the case tables of Unicode and
  belongs to the platform: it is an argument \<open>toLowerCase\<close> of every function that calls
  it.

  The white space that \<open>trim\<close> and \<open>parseInt\<close> skip is the \<open>WhiteSpace\<close> and
  \<open>LineTerminator\<close> of ECMAScript: tab, line feed, vertical tab, form feed, carriage
  return, space, U+00A0, U+1680, U+2000 to U+200A, U+2028, U+2029, U+202F, U+205F,
  U+3000 and U+FEFF, here in their UTF-8 encodings.
\<close>

definition whiteSpaces :: "string list" where
  "whiteSpaces =
     map (\<lambda>c. [c]) [CHR 0x09, CHR 0x0A, CHR 0x0B, CHR 0x0C, CHR 0x0D, CHR 0x20] @
     [[CHR 0xC2, CHR 0xA0], [CHR 0xE1, CHR 0x9A, CHR 0x80]] @
     map (\<lambda>c. [CHR 0xE2, CHR 0x80, c])
       [CHR 0x80, CHR 0x81, CHR 0x82, CHR 0x83, CHR 0x84, CHR 0x85, CHR 0x86, CHR 0x87,
        CHR 0x88, CHR 0x89, CHR 0x8A, CHR 0xA8, CHR 0xA9, CHR 0xAF] @
     [[CHR 0xE2, CHR 0x81, CHR 0x9F], [CHR 0xE3, CHR 0x80, CHR 0x80],
      [CHR 0xEF, CHR 0xBB, CHR 0xBF]]"

text \<open>\<open>skip ws s\<close> removes from the front of \<open>s\<close> every leading occurrence of one of
  the byte sequences \<open>ws\<close>.\<close>

function skip :: "string list \<Rightarrow> string \<Rightarrow> string" where
  "skip ws s =
     (case List.find (\<lambda>w. w \<noteq> [] \<and> prefix w s) ws of
        None \<Rightarrow> s
      | Some w \<Rightarrow> skip ws (drop (length w) s))"
  by pat_completeness auto
termination
proof (relation "measure (\<lambda>(ws, s). length s)")
  show "wf (measure (\<lambda>(ws, s). length s))"
    by simp
next
  fix ws :: "string list" and s w :: string
  assume "List.find (\<lambda>w. w \<noteq> [] \<and> prefix w s) ws = Some w"
  then have "w \<noteq> []" and "prefix w s"
    by (auto simp: find_Some_iff)
  then have "s \<noteq> []" and "0 < length w"
    by auto
  then show "((ws, drop (length w) s), (ws, s)) \<in> measure (\<lambda>(ws, s). length s)"
    by simp
qed

declare skip.simps [simp del]

text \<open>\<open>String.prototype.trim\<close>: the white space is removed from both ends. A white
  space at the end of the string is its encoding read backwards at the front of the
  reversed string.\<close>

definition trim :: "string \<Rightarrow> string" where
  "trim s = rev (skip (map rev whiteSpaces) (rev (skip whiteSpaces s)))"

definition isDigit :: "char \<Rightarrow> bool" where
  "isDigit c = (let n = (of_char c :: nat) in 48 \<le> n \<and> n \<le> 57)"

definition digitValue :: "char \<Rightarrow> int" where
  "digitValue c = int (of_char c) - 48"

text \<open>
  \<open>parseInt(s, 10)\<close>: leading white space is skipped, one sign is read, then the longest
  run of decimal digits; \<open>NaN\<close> (\<open>None\<close>) when there is no digit. What follows the digits
  is ignored. The result is only compared with 1 and 12, so the rounding of a long run of
  digits to a double makes no difference and the value is kept as an integer.
\<close>

definition parseInt :: "string \<Rightarrow> int option" where
  "parseInt inputString =
     (let S = skip whiteSpaces inputString;
          (sign, S) = (case S of
                         [] \<Rightarrow> (1, S)
                       | c # r \<Rightarrow> if c = CHR ''-'' then (- 1, r)
                                  else if c = CHR ''+'' then (1, r) else (1, S));
          Z = takeWhile isDigit S
      in if Z = [] then None
         else Some (sign * foldl (\<lambda>n c. 10 * n + digitValue c) 0 Z))"

text \<open>
  A JavaScript number as yargs delivers it for an option of type \<open>number\<close>: \<open>NaN\<close>
  when the argument is not numeric (\<open>--week abc\<close>), an infinity, or a finite double,
  given by its real value (\<open>-0\<close> and \<open>0\<close> are both \<open>Number 0\<close>). Only comparisons are
  made with these numbers.
\<close>

datatype jsnumber = NaN | PosInfinity | NegInfinity | Number real

text \<open>\<open>x < r\<close> and \<open>x > r\<close> for a number \<open>x\<close> and a finite \<open>r\<close>: every comparison with
  \<open>NaN\<close> is false.\<close>

definition js_less :: "jsnumber \<Rightarrow> real \<Rightarrow> bool" where
  "js_less x r =
     (case x of NaN \<Rightarrow> False | PosInfinity \<Rightarrow> False | NegInfinity \<Rightarrow> True
      | Number y \<Rightarrow> y < r)"

definition js_greater :: "jsnumber \<Rightarrow> real \<Rightarrow> bool" where
  "js_greater x r =
     (case x of NaN \<Rightarrow> False | PosInfinity \<Rightarrow> True | NegInfinity \<Rightarrow> False
      | Number y \<Rightarrow> y > r)"

section \<open>Month and week options\<close>

text \<open>
  A value that \<open>parseMonth\<close> can return besides \<open>null\<close>: a number, or a member that the
  object literal \<open>monthMap\<close> inherits from \<open>Object.prototype\<close>.
\<close>

datatype jsval = JNumber int | JObject string

definition monthMap :: "(string \<times> int) list" where
  "monthMap =
     [(''january'', 1), (''jan'', 1), (''february'', 2), (''feb'', 2),
      (''march'', 3), (''mar'', 3), (''april'', 4), (''apr'', 4),
      (''may'', 5), (''june'', 6), (''jun'', 6), (''july'', 7), (''jul'', 7),
      (''august'', 8), (''aug'', 8), (''september'', 9), (''sep'', 9),
      (''october'', 10), (''oct'', 10), (''november'', 11), (''nov'', 11),
      (''december'', 12), (''dec'', 12)]"

text \<open>
  \<open>monthMap[monthStr]\<close>: an own property of the object literal, else a property that
  it inherits from \<open>Object.prototype\<close>; these are functions, and \<open>__proto__\<close> is the
  prototype object. \<open>undefined\<close> is \<open>None\<close>.
\<close>

definition Object_prototype :: "string list" where
  "Object_prototype =
     [''constructor'', ''__defineGetter__'', ''__defineSetter__'', ''hasOwnProperty'',
      ''__lookupGetter__'', ''__lookupSetter__'', ''isPrototypeOf'',
      ''propertyIsEnumerable'', ''toString'', ''valueOf'', ''__proto__'',
      ''toLocaleString'']"

definition monthMap_get :: "string \<Rightarrow> jsval option" where
  "monthMap_get monthStr =
     (case map_of monthMap monthStr of
        Some n \<Rightarrow> Some (JNumber n)
      | None \<Rightarrow>
          if monthStr \<in> set Object_prototype then Some (JObject monthStr) else None)"

text \<open>\<open>parseMonth\<close>; \<open>null\<close> is \<open>None\<close>. Every value of \<open>monthMap_get\<close> is truthy, so
  \<open>monthMap[monthStr] || null\<close> is \<open>null\<close> exactly on \<open>undefined\<close>.\<close>

definition parseMonth :: "(string \<Rightarrow> string) \<Rightarrow> string \<Rightarrow> jsval option" where
  "parseMonth toLowerCase monthInput =
     (if monthInput = [] then None
      else
        (case parseInt monthInput of
           Some monthNumber \<Rightarrow>
             if monthNumber \<ge> 1 \<and> monthNumber \<le> 12 then Some (JNumber monthNumber)
             else monthMap_get (trim (toLowerCase monthInput))
         | None \<Rightarrow> monthMap_get (trim (toLowerCase monthInput))))"

text \<open>
  The coercions of the \<open>month\<close> and \<open>week\<close> options. An option that was not passed
  (\<open>undefined\<close>) is \<open>None\<close>; a thrown \<open>Error\<close> is \<open>Inl\<close> of its message. \<open>week\<close> has the
  yargs type \<open>number\<close>: for an option that is passed once the test
  \<open>typeof week !== "number"\<close> is false, and \<open>NaN\<close> passes both comparisons. \<open>month\<close>
  has the yargs type \<open>string\<close>.
\<close>

definition monthCoercion ::
  "(string \<Rightarrow> string) \<Rightarrow> string option \<Rightarrow> string + jsval option" where
  "monthCoercion toLowerCase monthInput =
     (case monthInput of
        None \<Rightarrow> Inr None
      | Some m \<Rightarrow>
          (case parseMonth toLowerCase m of
             None \<Rightarrow> Inl (''Invalid month: '' @ [CHR 0x27] @ m @ [CHR 0x27] @ ''.'')
           | Some monthNumber \<Rightarrow> Inr (Some monthNumber)))"

definition weekCoercion :: "jsnumber option \<Rightarrow> string + jsnumber option" where
  "weekCoercion week =
     (case week of
        None \<Rightarrow> Inr None
      | Some w \<Rightarrow>
          if js_less w 1 \<or> js_greater w 5
          then Inl ''Invalid week value: The week must be a number between 1 and 5.''
          else Inr (Some w))"

section \<open>Filter engine\<close>

text \<open>
  A \<open>Date\<close> object, as far as the filter reads it: the results of \<open>toISOString()\<close>,
  of \<open>toLocaleDateString("en-US", {weekday: "long"})\<close>, of \<open>getMonth()\<close>,
  \<open>getFullYear()\<close> and \<open>getDate()\<close> (the last four in local time). The constructor
  \<open>new Date(string)\<close> belongs to the platform and is an argument \<open>newDate\<close> of the
  functions that call it; \<open>None\<close> is an invalid date.
\<close>

record jsdate =
  toISOString :: string
  toLocaleDateString_weekday :: string
  getMonth :: nat
  getFullYear :: int
  getDate :: nat

text \<open>The options that \<open>filterInstructions\<close> and \<open>validateFilterOptions\<close> read, after
  the coercions.\<close>

record filters =
  f_priority :: "string option"
  f_source :: "string option"
  f_status :: "string option"
  f_deadline :: bool
  f_all :: bool
  f_date :: "string option"
  f_day :: "string option"
  f_month :: "jsval option"
  f_year :: "jsnumber option"
  f_week :: "jsnumber option"

text \<open>Truthiness of an optional number and of an optional month value: \<open>undefined\<close>,
  \<open>NaN\<close> and \<open>0\<close> are falsy, an infinity and an object are truthy.\<close>

definition truthy_number :: "jsnumber option \<Rightarrow> bool" where
  "truthy_number x =
     (case x of
        None \<Rightarrow> False
      | Some NaN \<Rightarrow> False
      | Some (Number r) \<Rightarrow> r \<noteq> 0
      | Some _ \<Rightarrow> True)"

definition truthy_jsval :: "jsval option \<Rightarrow> bool" where
  "truthy_jsval x =
     (case x of None \<Rightarrow> False | Some (JNumber n) \<Rightarrow> n \<noteq> 0 | Some (JObject k) \<Rightarrow> True)"

definition getDayName :: "jsdate option \<Rightarrow> string" where
  "getDayName date =
     (case date of None \<Rightarrow> ''Invalid Date'' | Some d \<Rightarrow> toLocaleDateString_weekday d)"

text \<open>\<open>Math.ceil(date.getDate() / 7)\<close>. The quotient of a day of the month by 7 is far
  from the next integer unless it is one, so the floating-point division does not change
  the ceiling.\<close>

definition getWeekOfMonth :: "jsdate \<Rightarrow> int" where
  "getWeekOfMonth date = \<lceil>real (getDate date) / 7\<rceil>"

text \<open>\<open>toISOString()\<close> of an invalid date throws a \<open>RangeError\<close>.\<close>

datatype exn = RangeError

definition checkDate ::
  "(string \<Rightarrow> string) \<Rightarrow> (string \<Rightarrow> jsdate option) \<Rightarrow> filters \<Rightarrow> string option
     \<Rightarrow> exn + bool" where
  "checkDate toLowerCase newDate filters dateString =
     (case given dateString of
        None \<Rightarrow> Inr False
      | Some ds \<Rightarrow>
          (let date = newDate ds in
           case (case given (f_date filters) of
                   None \<Rightarrow> Inr True
                 | Some fd \<Rightarrow>
                     (case date of
                        None \<Rightarrow> Inl RangeError
                      | Some d \<Rightarrow>
                          (case newDate fd of
                             None \<Rightarrow> Inl RangeError
                           | Some d' \<Rightarrow>
                               Inr (take 10 (toISOString d) = take 10 (toISOString d'))))) of
             Inl e \<Rightarrow> Inl e
           | Inr dateMatch \<Rightarrow>
               (let dayMatch =
                      (case given (f_day filters) of
                         None \<Rightarrow> True
                       | Some fday \<Rightarrow> toLowerCase (getDayName date) = toLowerCase fday);
                    monthMatch =
                      (if truthy_jsval (f_month filters)
                       then (case date of
                               None \<Rightarrow> False
                             | Some d \<Rightarrow> Some (JNumber (int (getMonth d) + 1)) = f_month filters)
                       else True);
                    yearMatch =
                      (if truthy_number (f_year filters)
                       then (case date of
                               None \<Rightarrow> False
                             | Some d \<Rightarrow> Some (Number (real_of_int (getFullYear d))) = f_year filters)
                       else True);
                    weekMatch =
                      (if truthy_number (f_week filters)
                       then (case date of
                               None \<Rightarrow> False
                             | Some d \<Rightarrow> Some (Number (real_of_int (getWeekOfMonth d))) = f_week filters)
                       else True)
                in Inr (dateMatch \<and> dayMatch \<and> monthMatch \<and> yearMatch \<and> weekMatch))))"

text \<open>\<open>checkDate(inst.added) || checkDate(inst.deadline)\<close>: the deadline is looked at
  only when the added timestamp does not match.\<close>

definition checkInstruction ::
  "(string \<Rightarrow> string) \<Rightarrow> (string \<Rightarrow> jsdate option) \<Rightarrow> filters \<Rightarrow> instruction
     \<Rightarrow> exn + bool" where
  "checkInstruction toLowerCase newDate filters inst =
     (case checkDate toLowerCase newDate filters (Some (added inst)) of
        Inl e \<Rightarrow> Inl e
      | Inr b \<Rightarrow> if b then Inr True else checkDate toLowerCase newDate filters (deadline inst))"

text \<open>\<open>Array.prototype.filter\<close> with a callback that can throw: the first exception
  ends the loop.\<close>

fun filter_throwing :: "('a \<Rightarrow> exn + bool) \<Rightarrow> 'a list \<Rightarrow> exn + 'a list" where
  "filter_throwing p [] = Inr []"
| "filter_throwing p (x # xs) =
     (case p x of
        Inl e \<Rightarrow> Inl e
      | Inr b \<Rightarrow>
          (case filter_throwing p xs of
             Inl e \<Rightarrow> Inl e
           | Inr ys \<Rightarrow> Inr (if b then x # ys else ys)))"

definition filterInstructions ::
  "(string \<Rightarrow> string) \<Rightarrow> (string \<Rightarrow> jsdate option) \<Rightarrow> instruction list \<Rightarrow> filters
     \<Rightarrow> exn + instruction list" where
  "filterInstructions toLowerCase newDate instructions filters =
     (let filteredData = instructions;
          filteredData =
            (case given (f_priority filters) of
               Some p \<Rightarrow> filter (\<lambda>inst. priority inst = p) filteredData
             | None \<Rightarrow> filteredData);
          filteredData =
            (case given (f_source filters) of
               Some s \<Rightarrow> filter (\<lambda>inst. toLowerCase (source inst) = toLowerCase s) filteredData
             | None \<Rightarrow> filteredData);
          filteredData =
            (case given (f_status filters) of
               Some s \<Rightarrow> filter (\<lambda>inst. status inst = s) filteredData
             | None \<Rightarrow> filteredData);
          filteredData =
            (if f_deadline filters
             then filter (\<lambda>inst. given (deadline inst) \<noteq> None) filteredData
             else filteredData);
          filteredData =
            (if \<not> f_all filters
             then filter (\<lambda>inst. \<not> isDeleted inst) filteredData
             else filteredData);
          hasDateFilter =
            (given (f_date filters) \<noteq> None \<or> given (f_day filters) \<noteq> None \<or>
             truthy_jsval (f_month filters) \<or> truthy_number (f_year filters) \<or>
             truthy_number (f_week filters))
      in if hasDateFilter
         then filter_throwing (checkInstruction toLowerCase newDate filters) filteredData
         else Inr filteredData)"

section \<open>Validation of the filter options\<close>

text \<open>The test of \<open>/^\d{4}-\d{2}-\d{2}$/\<close>.\<close>

definition matches_date_pattern :: "string \<Rightarrow> bool" where
  "matches_date_pattern s =
     (case s of
        [y1, y2, y3, y4, h1, m1, m2, h2, d1, d2] \<Rightarrow>
          isDigit y1 \<and> isDigit y2 \<and> isDigit y3 \<and> isDigit y4 \<and> h1 = CHR ''-'' \<and>
          isDigit m1 \<and> isDigit m2 \<and> h2 = CHR ''-'' \<and> isDigit d1 \<and> isDigit d2
      | _ \<Rightarrow> False)"

text \<open>\<open>validateFilterOptions\<close> returns \<open>true\<close> (\<open>None\<close>) or the message of the failure.\<close>

definition validateFilterOptions ::
  "(string \<Rightarrow> jsdate option) \<Rightarrow> filters \<Rightarrow> string option" where
  "validateFilterOptions newDate options =
     (case (case given (f_date options) of
              None \<Rightarrow> None
            | Some d \<Rightarrow>
                if \<not> matches_date_pattern d \<or> newDate d = None
                then Some ''Invalid date format for --date. Please use YYYY-MM-DD.''
                else if given (f_day options) \<noteq> None \<or> truthy_jsval (f_month options) \<or>
                        truthy_number (f_week options) \<or> truthy_number (f_year options)
                then Some ''Cannot use --date with other time filters like --day, --month, etc.''
                else None) of
        Some message \<Rightarrow> Some message
      | None \<Rightarrow>
          if truthy_number (f_week options) \<and> \<not> truthy_jsval (f_month options)
          then Some ''The --week filter must be used with the --month filter.''
          else None)"

text \<open>
  The options of \<open>show\<close>, \<open>export\<close> and \<open>total\<close> as the command line gives them: the
  month is still a string.
\<close>

record filter_argv =
  v_priority :: "string option"
  v_source :: "string option"
  v_status :: "string option"
  v_deadline :: bool
  v_all :: bool
  v_date :: "string option"
  v_day :: "string option"
  v_month :: "string option"
  v_year :: "jsnumber option"
  v_week :: "jsnumber option"

text \<open>
  The builder of the three commands: \<open>.check(validateFilterOptions)\<close>,
  \<open>.coerce("week", weekCoercion)\<close>, \<open>.coerce("month", monthCoercion)\<close>. yargs applies
  the coercions while it parses and runs the check on the coerced options; the handler
  runs only when neither failed.
\<close>

definition parse_options ::
  "(string \<Rightarrow> string) \<Rightarrow> (string \<Rightarrow> jsdate option) \<Rightarrow> filter_argv \<Rightarrow> string + filters" where
  "parse_options toLowerCase newDate argv =
     (case weekCoercion (v_week argv) of
        Inl message \<Rightarrow> Inl message
      | Inr week \<Rightarrow>
          (case monthCoercion toLowerCase (v_month argv) of
             Inl message \<Rightarrow> Inl message
           | Inr month \<Rightarrow>
               (let options = \<lparr>f_priority = v_priority argv, f_source = v_source argv,
                                f_status = v_status argv, f_deadline = v_deadline argv,
                                f_all = v_all argv, f_date = v_date argv, f_day = v_day argv,
                                f_month = month, f_year = v_year argv, f_week = week\<rparr>
                in case validateFilterOptions newDate options of
                     Some message \<Rightarrow> Inl message
                   | None \<Rightarrow> Inr options)))"

text \<open>
  The part that the handlers of \<open>show\<close>, \<open>export\<close> and \<open>total\<close> share:
  \<open>filterInstructions(await loadInstructions(), argv)\<close>. The result is the failure
  message of yargs, or what the filter returns, together with the state of the files.
\<close>

definition filter_command ::
  "(string \<Rightarrow> string) \<Rightarrow> (string \<Rightarrow> jsdate option) \<Rightarrow> filter_argv \<Rightarrow> state
     \<Rightarrow> (string + exn + instruction list) \<times> state" where
  "filter_command toLowerCase newDate argv st =
     (case parse_options toLowerCase newDate argv of
        Inl message \<Rightarrow> (Inl message, st)
      | Inr options \<Rightarrow>
          (Inr (filterInstructions toLowerCase newDate (loadInstructions st) options), st))"

section \<open>Notions of the specification\<close>

text \<open>The ids that a session assigned, in order: one for each "Instruction Added".\<close>

fun assigned_ids :: "outcome list \<Rightarrow> int list" where
  "assigned_ids [] = []"
| "assigned_ids (InstructionAdded i # outs) = i # assigned_ids outs"
| "assigned_ids (out # outs) = assigned_ids outs"

text \<open>
  The limits within which the id arithmetic is exact and the spread call of \<open>newId\<close>
  returns, for a store and \<open>n\<close> further invocations: the records stay at most
  \<open>spread_limit\<close>, a number of arguments that Node accepts, and every id stays a safe
  integer while it grows by \<open>n\<close>.
\<close>

definition spread_limit :: nat where
  "spread_limit = 65535"

definition within_limits :: "nat \<Rightarrow> instruction list \<Rightarrow> bool" where
  "within_limits n store =
     (length store + n \<le> spread_limit \<and>
      (\<forall>r\<in>set store. - (2 ^ 53) \<le> inst_id r \<and> inst_id r + int n < 2 ^ 53))"

text \<open>A create operation that goes through: \<open>add\<close> without a deadline, or with a
  deadline phrase that the parser understands.\<close>

fun creates :: "(string \<Rightarrow> string option) \<Rightarrow> invocation \<Rightarrow> bool" where
  "creates parseDate (Add now argv) =
     (case given (a_deadline argv) of None \<Rightarrow> True | Some d \<Rightarrow> parseDate d \<noteq> None)"
| "creates parseDate c = False"

text \<open>The invocations that never take a record out of the store: all but \<open>reset\<close>,
  \<open>undo\<close> and \<open>redo\<close>.\<close>

fun keeps_records :: "invocation \<Rightarrow> bool" where
  "keeps_records (Reset confirm) = False"
| "keeps_records (Undo confirm) = False"
| "keeps_records (Redo confirm) = False"
| "keeps_records c = True"


text \<open>\<open>find(Store, id)\<close>: the first record of the store with the id.\<close>

definition find_record :: "int \<Rightarrow> instruction list \<Rightarrow> instruction option" where
  "find_record i store = List.find (\<lambda>inst. inst_id inst = i) store"

text \<open>The last \<open>n\<close> elements of a list, in order.\<close>

definition most_recent :: "nat \<Rightarrow> 'a list \<Rightarrow> 'a list" where
  "most_recent n xs = drop (length xs - n) xs"

text \<open>
  A mutation as every mutating handler performs it: the snapshot of the store is pushed
  under the command's name, the redo stack is cleared, the new store is saved.
\<close>

definition mutation :: "state \<Rightarrow> string \<times> instruction list \<Rightarrow> state" where
  "mutation st m = saveInstructions (snd m) (clearRedoStack (pushToUndoStack (fst m) st))"

text \<open>The snapshots that a sequence of mutations takes, oldest first: each command name
  with the store as it was before that mutation.\<close>

definition snapshots :: "instruction list \<Rightarrow> (string \<times> instruction list) list \<Rightarrow> entry list" where
  "snapshots store ms =
     map (\<lambda>(c, d). \<lparr>command = c, data = d\<rparr>) (zip (map fst ms) (store # map snd ms))"

text \<open>
  The temporal criteria in the words of the specification. A criterion is specified when
  the option is present. A timestamp satisfies the criteria when it satisfies every
  specified one: the calendar day of \<open>date\<close>, the weekday name of \<open>day\<close> (case
  insensitive), the month, the year, and the week of the month, which is the ceiling of
  the day of the month divided by 7.
\<close>

definition satisfies_criteria ::
  "(string \<Rightarrow> string) \<Rightarrow> (string \<Rightarrow> jsdate option) \<Rightarrow> filters \<Rightarrow> jsdate \<Rightarrow> bool" where
  "satisfies_criteria toLowerCase newDate c t =
     ((case f_date c of
         None \<Rightarrow> True
       | Some x \<Rightarrow> (case newDate x of
                     None \<Rightarrow> False
                   | Some d \<Rightarrow> take 10 (toISOString t) = take 10 (toISOString d))) \<and>
      (case f_day c of
         None \<Rightarrow> True
       | Some n \<Rightarrow> toLowerCase (toLocaleDateString_weekday t) = toLowerCase n) \<and>
      (case f_month c of None \<Rightarrow> True | Some m \<Rightarrow> m = JNumber (int (getMonth t) + 1)) \<and>
      (case f_year c of None \<Rightarrow> True | Some y \<Rightarrow> Number (real_of_int (getFullYear t)) = y) \<and>
      (case f_week c of None \<Rightarrow> True | Some w \<Rightarrow> Number (real_of_int \<lceil>real (getDate t) / 7\<rceil>) = w))"

definition timestamp_satisfies ::
  "(string \<Rightarrow> string) \<Rightarrow> (string \<Rightarrow> jsdate option) \<Rightarrow> filters \<Rightarrow> string option
     \<Rightarrow> bool" where
  "timestamp_satisfies toLowerCase newDate c ts =
     (case ts of
        None \<Rightarrow> False
      | Some s \<Rightarrow> (case newDate s of None \<Rightarrow> False | Some t \<Rightarrow> satisfies_criteria toLowerCase newDate c t))"

text \<open>The record matches when its added timestamp or its deadline satisfies the criteria.\<close>

definition temporal_match ::
  "(string \<Rightarrow> string) \<Rightarrow> (string \<Rightarrow> jsdate option) \<Rightarrow> filters \<Rightarrow> instruction \<Rightarrow> bool" where
  "temporal_match toLowerCase newDate c inst =
     (timestamp_satisfies toLowerCase newDate c (Some (added inst)) \<or>
      timestamp_satisfies toLowerCase newDate c (deadline inst))"

text \<open>The criteria with the temporal group taken out.\<close>

definition without_temporal :: "filters \<Rightarrow> filters" where
  "without_temporal c =
     c\<lparr>f_date := None, f_day := None, f_month := None, f_year := None, f_week := None\<rparr>"

text \<open>Criteria whose present values are truthy: no empty string, no number 0 and no
  \<open>NaN\<close>.\<close>

definition truthy_criteria :: "filters \<Rightarrow> bool" where
  "truthy_criteria c =
     (f_date c \<noteq> Some [] \<and> f_day c \<noteq> Some [] \<and> f_month c \<noteq> Some (JNumber 0) \<and>
      f_year c \<noteq> Some (Number 0) \<and> f_year c \<noteq> Some NaN \<and>
      f_week c \<noteq> Some (Number 0) \<and> f_week c \<noteq> Some NaN)"

text \<open>The temporal criteria that count as given: a criterion whose value is falsy
  (an empty string, the number 0, \<open>NaN\<close>) is dropped.\<close>

definition given_criteria :: "filters \<Rightarrow> filters" where
  "given_criteria c =
     c\<lparr>f_date := given (f_date c),
       f_day := given (f_day c),
       f_month := (if truthy_jsval (f_month c) then f_month c else None),
       f_year := (if truthy_number (f_year c) then f_year c else None),
       f_week := (if truthy_number (f_week c) then f_week c else None)\<rparr>"

text \<open>The timestamps of a record as the tool writes them: \<open>added\<close> is a valid date, the
  deadline is \<open>null\<close> or a valid date.\<close>

definition valid_timestamps :: "(string \<Rightarrow> jsdate option) \<Rightarrow> instruction \<Rightarrow> bool" where
  "valid_timestamps newDate inst =
     (added inst \<noteq> [] \<and> newDate (added inst) \<noteq> None \<and>
      (case deadline inst of None \<Rightarrow> True | Some s \<Rightarrow> s \<noteq> [] \<and> newDate s \<noteq> None))"

text \<open>A timestamp in days 8 to 14 of August (local time).\<close>

definition in_second_week_of_august :: "(string \<Rightarrow> jsdate option) \<Rightarrow> string option \<Rightarrow> bool" where
  "in_second_week_of_august newDate ts =
     (case ts of
        None \<Rightarrow> False
      | Some s \<Rightarrow> (case newDate s of
                    None \<Rightarrow> False
                  | Some t \<Rightarrow> getMonth t + 1 = 8 \<and> 8 \<le> getDate t \<and> getDate t \<le> 14))"

text \<open>The empty criteria \<open>{}\<close>, and the criteria \<open>week=2, month=8\<close>.\<close>

definition empty_criteria :: filters where
  "empty_criteria =
     \<lparr>f_priority = None, f_source = None, f_status = None, f_deadline = False,
      f_all = False, f_date = None, f_day = None, f_month = None, f_year = None,
      f_week = None\<rparr>"

definition week2_month8 :: filters where
  "week2_month8 = empty_criteria\<lparr>f_month := Some (JNumber 8), f_week := Some (Number 2)\<rparr>"

text \<open>The numeric strings 1 to 12, and the month names and abbreviations of the
  specification (the keys of \<open>monthMap\<close>).\<close>

definition numeric_month_strings :: "string list" where
  "numeric_month_strings =
     [''1'', ''2'', ''3'', ''4''] @ [''5'', ''6'', ''7'', ''8''] @
     [''9'', ''10'', ''11'', ''12'']"

definition month_names :: "string list" where
  "month_names = map fst monthMap"

text \<open>Both stacks hold at most \<open>MAX_UNDO_REDO_STATES\<close> entries.\<close>

definition stacks_within_capacity :: "state \<Rightarrow> bool" where
  "stacks_within_capacity st =
     (length (UNDO_STACK_FILE st) \<le> MAX_UNDO_REDO_STATES \<and>
      length (REDO_STACK_FILE st) \<le> MAX_UNDO_REDO_STATES)"

section \<open>Example inputs\<close>

text \<open>
  The options of \<open>inst add --source work --instruction "buy milk"\<close>, the record that
  \<open>add\<close> writes for them on an empty store at the time \<open>example_now\<close>, and a deadline
  parser that understands one phrase.
\<close>

definition example_argv :: add_argv where
  "example_argv =
     \<lparr>a_source = ''work'', a_instruction = ''buy milk'', a_priority = ''normal'',
      a_deadline = None\<rparr>"

definition example_now :: string where
  "example_now = ''2025-08-10T09:00:00.000Z''"

definition example_instruction :: instruction where
  "example_instruction =
     \<lparr>inst_id = 1, source = ''work'', inst_text = ''buy milk'', added = example_now,
      priority = ''normal'', deadline = None, status = ''pending'', isDeleted = False,
      deletedAt = None\<rparr>"

definition example_parseDate :: "string \<Rightarrow> string option" where
  "example_parseDate phrase =
     (if phrase = ''tomorrow at 5pm'' then Some ''2025-08-11T17:00:00.000Z'' else None)"

text \<open>The files after \<open>add\<close>, \<open>mark --id 1 --status completed\<close> and \<open>undo\<close>.\<close>

definition example_state :: state where
  "example_state =
     \<lparr>DATA_PATH = [example_instruction],
      UNDO_STACK_FILE = [\<lparr>command = ''add'', data = []\<rparr>],
      REDO_STACK_FILE =
        [\<lparr>command = ''mark'', data = [example_instruction\<lparr>status := ''completed''\<rparr>]\<rparr>]\<rparr>"

text \<open>The options of \<open>inst edit --id 1 --source "" --instruction ""\<close>.\<close>

definition example_edit :: edit_argv where
  "example_edit =
     \<lparr>e_id = 1, e_source = Some [], e_instruction = Some [], e_priority = None,
      e_status = None, e_deadline = None\<rparr>"

text \<open>The files when the store holds one record whose id is \<open>2^53\<close>.\<close>

definition example_large_id_state :: state where
  "example_large_id_state =
     \<lparr>DATA_PATH = [example_instruction\<lparr>inst_id := 9007199254740992\<rparr>],
      UNDO_STACK_FILE = [], REDO_STACK_FILE = []\<rparr>"

section \<open>Notions of the filter claims\<close>

text \<open>The records that are left after the filters outside the temporal group, as
  \<open>filterInstructions\<close> applies them one after the other.\<close>

definition base_of ::
  "(string \<Rightarrow> string) \<Rightarrow> filters \<Rightarrow> instruction list \<Rightarrow> instruction list" where
  "base_of toLowerCase c records =
    (let filteredData = records;
          filteredData =
            (case given (f_priority c) of
               Some p \<Rightarrow> filter (\<lambda>inst. priority inst = p) filteredData
             | None \<Rightarrow> filteredData);
          filteredData =
            (case given (f_source c) of
               Some s \<Rightarrow> filter (\<lambda>inst. toLowerCase (source inst) = toLowerCase s) filteredData
             | None \<Rightarrow> filteredData);
          filteredData =
            (case given (f_status c) of
               Some s \<Rightarrow> filter (\<lambda>inst. status inst = s) filteredData
             | None \<Rightarrow> filteredData);
          filteredData =
            (if f_deadline c
             then filter (\<lambda>inst. given (deadline inst) \<noteq> None) filteredData
             else filteredData)
      in (if \<not> f_all c
             then filter (\<lambda>inst. \<not> isDeleted inst) filteredData
             else filteredData))"

text \<open>
  The criteria outside the temporal group in the words of the specification: priority,
  source (case insensitive), status, \<open>hasDeadline\<close>, and \<open>includeDeleted\<close>, which
  excludes the soft-deleted records when it is false.
\<close>

definition other_criteria_match ::
  "(string \<Rightarrow> string) \<Rightarrow> filters \<Rightarrow> instruction \<Rightarrow> bool" where
  "other_criteria_match toLowerCase c inst =
     ((case given (f_priority c) of None \<Rightarrow> True | Some p \<Rightarrow> priority inst = p) \<and>
      (case given (f_source c) of
         None \<Rightarrow> True
       | Some s \<Rightarrow> toLowerCase (source inst) = toLowerCase s) \<and>
      (case given (f_status c) of None \<Rightarrow> True | Some s \<Rightarrow> status inst = s) \<and>
      (if f_deadline c then given (deadline inst) \<noteq> None else True) \<and>
      (if f_all c then True else \<not> isDeleted inst))"

text \<open>
  What \<open>new Date\<close> of Node returns on the strings of the examples, in a process whose
  time zone is UTC: the timestamp of the example record is read as it stands,
  \<open>2025-08-10\<close> and \<open>10 Aug 2025\<close> are read as the start of that day (a Sunday), and
  \<open>2025-02-30\<close> is read as 2 March 2025 (a Sunday). The examples apply it to no other
  string. The options of \<open>inst show --week 2\<close> follow.
\<close>

definition example_newDate :: "string \<Rightarrow> jsdate option" where
  "example_newDate s =
     (if s = ''2025-08-10T09:00:00.000Z''
      then Some \<lparr>toISOString = ''2025-08-10T09:00:00.000Z'',
                 toLocaleDateString_weekday = ''Sunday'', getMonth = 7,
                 getFullYear = 2025, getDate = 10\<rparr>
      else if s = ''2025-08-10'' \<or> s = ''10 Aug 2025''
      then Some \<lparr>toISOString = ''2025-08-10T00:00:00.000Z'',
                 toLocaleDateString_weekday = ''Sunday'', getMonth = 7,
                 getFullYear = 2025, getDate = 10\<rparr>
      else if s = ''2025-02-30''
      then Some \<lparr>toISOString = ''2025-03-02T00:00:00.000Z'',
                 toLocaleDateString_weekday = ''Sunday'', getMonth = 2,
                 getFullYear = 2025, getDate = 2\<rparr>
      else None)"

definition example_filter_argv :: filter_argv where
  "example_filter_argv =
     \<lparr>v_priority = None, v_source = None, v_status = None, v_deadline = False,
      v_all = False, v_date = None, v_day = None, v_month = None, v_year = None,
      v_week = Some (Number 2)\<rparr>"




text \<open>
  \<open>String.prototype.toLowerCase\<close> on a string of ASCII characters: the letters \<open>A\<close> to
  \<open>Z\<close> become \<open>a\<close> to \<open>z\<close>. It stands for the platform's function in the examples,
  whose strings are all ASCII.
\<close>

definition example_toLowerCase :: "string \<Rightarrow> string" where
  "example_toLowerCase s =
     map (\<lambda>c. let n = (of_char c :: nat)
              in if 65 \<le> n \<and> n \<le> 90 then char_of (n + 32) else c) s"

section \<open>Properties of the history stacks\<close>

lemma shift_tl: "shift xs = tl xs"
  by (cases xs) (simp_all add: shift_def)

lemma undo_of_push:
  "UNDO_STACK_FILE (pushToUndoStack c st) =
     (if length (UNDO_STACK_FILE st) \<ge> 10 then tl (UNDO_STACK_FILE st) else UNDO_STACK_FILE st)
       @ [\<lparr>command = c, data = DATA_PATH st\<rparr>]"
  by (cases "UNDO_STACK_FILE st") (simp_all add: pushToUndoStack_def loadInstructions_def MAX_UNDO_REDO_STATES_def shift_tl Let_def)

lemma redo_of_push:
  "REDO_STACK_FILE (pushToRedoStack c st) =
     (if length (REDO_STACK_FILE st) \<ge> 10 then tl (REDO_STACK_FILE st) else REDO_STACK_FILE st)
       @ [\<lparr>command = c, data = DATA_PATH st\<rparr>]"
  by (cases "REDO_STACK_FILE st") (simp_all add: pushToRedoStack_def loadInstructions_def MAX_UNDO_REDO_STATES_def shift_tl Let_def)

lemma push_undo_other:
  "DATA_PATH (pushToUndoStack c st) = DATA_PATH st"
  "REDO_STACK_FILE (pushToUndoStack c st) = REDO_STACK_FILE st"
  by (simp_all add: pushToUndoStack_def Let_def)

lemma push_redo_other:
  "DATA_PATH (pushToRedoStack c st) = DATA_PATH st"
  "UNDO_STACK_FILE (pushToRedoStack c st) = UNDO_STACK_FILE st"
  by (simp_all add: pushToRedoStack_def Let_def)

lemma popFromUndoStack_eq:
  "UNDO_STACK_FILE st \<noteq> [] \<Longrightarrow>
   popFromUndoStack st =
     (Some (command (last (UNDO_STACK_FILE st))),
      \<lparr>DATA_PATH = data (last (UNDO_STACK_FILE st)),
       UNDO_STACK_FILE = butlast (UNDO_STACK_FILE st),
       REDO_STACK_FILE =
         (if length (REDO_STACK_FILE st) \<ge> 10 then tl (REDO_STACK_FILE st) else REDO_STACK_FILE st)
           @ [\<lparr>command = command (last (UNDO_STACK_FILE st)), data = DATA_PATH st\<rparr>]\<rparr>)"
  by (simp add: popFromUndoStack_def Let_def saveInstructions_def redo_of_push push_redo_other)

lemma popFromRedoStack_eq:
  "REDO_STACK_FILE st \<noteq> [] \<Longrightarrow>
   popFromRedoStack st =
     (Some (command (last (REDO_STACK_FILE st))),
      \<lparr>DATA_PATH = data (last (REDO_STACK_FILE st)),
       UNDO_STACK_FILE =
         (if length (UNDO_STACK_FILE st) \<ge> 10 then tl (UNDO_STACK_FILE st) else UNDO_STACK_FILE st)
           @ [\<lparr>command = command (last (REDO_STACK_FILE st)), data = DATA_PATH st\<rparr>],
       REDO_STACK_FILE = butlast (REDO_STACK_FILE st)\<rparr>)"
  by (simp add: popFromRedoStack_def Let_def saveInstructions_def undo_of_push push_undo_other)


lemma entry_eta: "\<lparr>command = command e, data = data e\<rparr> = (e::entry)"
  by simp

lemma most_recent_push:
  "length s \<le> n \<Longrightarrow> 0 < n \<Longrightarrow>
   (if length s \<ge> n then tl s else s) @ [e] = most_recent n (s @ [e])"
  by (cases s) (auto simp: most_recent_def Suc_diff_le)

lemma most_recent_append:
  "most_recent n (most_recent n xs @ ys) = most_recent n (xs @ ys)"
proof -
  have "length xs + length ys - (length xs - n + n) + (length xs - n) =
        length xs + length ys - n"
    by arith
  then show ?thesis
    by (simp add: most_recent_def)
qed

lemma length_most_recent: "length (most_recent n xs) \<le> n"
  by (simp add: most_recent_def)

lemma mutation_fields:
  "DATA_PATH (mutation st m) = snd m"
  "REDO_STACK_FILE (mutation st m) = []"
  "UNDO_STACK_FILE (mutation st m) =
     (if length (UNDO_STACK_FILE st) \<ge> 10 then tl (UNDO_STACK_FILE st) else UNDO_STACK_FILE st)
       @ [\<lparr>command = fst m, data = DATA_PATH st\<rparr>]"
  by (simp_all add: mutation_def saveInstructions_def clearRedoStack_def undo_of_push)

lemma undo_after_mutations:
  "length (UNDO_STACK_FILE st) \<le> 10 \<Longrightarrow>
   UNDO_STACK_FILE (foldl mutation st ms) =
     most_recent 10 (UNDO_STACK_FILE st @ snapshots (DATA_PATH st) ms)"
proof (induction ms arbitrary: st)
  case Nil
  then show ?case by (simp add: snapshots_def most_recent_def)
next
  case (Cons m ms)
  have u: "UNDO_STACK_FILE (mutation st m) =
             most_recent 10 (UNDO_STACK_FILE st @ [\<lparr>command = fst m, data = DATA_PATH st\<rparr>])"
    using Cons.prems most_recent_push [of "UNDO_STACK_FILE st" 10]
    by (simp add: mutation_fields)
  then have len: "length (UNDO_STACK_FILE (mutation st m)) \<le> 10"
    by (simp add: length_most_recent)
  have sn: "snapshots (DATA_PATH st) (m # ms) =
              \<lparr>command = fst m, data = DATA_PATH st\<rparr> # snapshots (snd m) ms"
    by (simp add: snapshots_def)
  show ?case
    using Cons.IH [OF len] u
    by (simp add: sn mutation_fields(1) most_recent_append [of 10 "UNDO_STACK_FILE st @ [\<lparr>command = fst m, data = DATA_PATH st\<rparr>]", simplified])
qed

lemma mutation_eq:
  "saveInstructions d (clearRedoStack (pushToUndoStack c st)) = mutation st (c, d)"
  by (simp add: mutation_def)

lemma add_handler_state:
  "snd (add_handler parseDate now argv st) = mutation st (''add'', DATA_PATH (snd (add_handler parseDate now argv st)))"
  by (simp add: add_handler_def Let_def mutation_def saveInstructions_def clearRedoStack_def
      loadInstructions_def push_undo_other)

lemma edit_handler_state:
  "snd (edit_handler parseDate argv st) = st \<or>
   snd (edit_handler parseDate argv st) =
     mutation st (''edit'', DATA_PATH (snd (edit_handler parseDate argv st)))"
  by (simp add: edit_handler_def Let_def mutation_def saveInstructions_def clearRedoStack_def
      loadInstructions_def push_undo_other split: option.split prod.split)

lemma mark_handler_state:
  "snd (mark_handler i s st) = st \<or>
   snd (mark_handler i s st) = mutation st (''mark'', DATA_PATH (snd (mark_handler i s st)))"
  by (simp add: mark_handler_def Let_def mutation_def saveInstructions_def clearRedoStack_def
      loadInstructions_def push_undo_other split: option.split)

lemma delete_handler_state:
  "snd (delete_handler confirm now i st) = st \<or>
   snd (delete_handler confirm now i st) =
     mutation st (''delete'', DATA_PATH (snd (delete_handler confirm now i st)))"
  by (simp add: delete_handler_def Let_def mutation_def saveInstructions_def clearRedoStack_def
      loadInstructions_def push_undo_other split: option.split)

lemma recover_handler_state:
  "snd (recover_handler i st) = st \<or>
   snd (recover_handler i st) = mutation st (''recover'', DATA_PATH (snd (recover_handler i st)))"
  by (simp add: recover_handler_def Let_def mutation_def saveInstructions_def clearRedoStack_def
      loadInstructions_def push_undo_other split: option.split)

lemma reset_handler_state:
  "snd (reset_handler confirm st) = st \<or>
   snd (reset_handler confirm st) = mutation st (''reset'', [])"
  by (simp add: reset_handler_def Let_def mutation_def)

lemma undo_handler_state:
  "snd (undo_handler confirm st) = st \<or>
   (UNDO_STACK_FILE st \<noteq> [] \<and> snd (undo_handler confirm st) = snd (popFromUndoStack st))"
  by (auto simp: undo_handler_def Let_def split: option.split prod.split)

lemma redo_handler_state:
  "snd (redo_handler confirm st) = st \<or>
   (REDO_STACK_FILE st \<noteq> [] \<and> snd (redo_handler confirm st) = snd (popFromRedoStack st))"
  by (auto simp: redo_handler_def Let_def split: option.split prod.split)

lemma mutation_within_capacity:
  "stacks_within_capacity st \<Longrightarrow> stacks_within_capacity (mutation st m)"
  by (cases "UNDO_STACK_FILE st")
     (auto simp: stacks_within_capacity_def mutation_fields MAX_UNDO_REDO_STATES_def)

lemma pop_undo_within_capacity:
  "stacks_within_capacity st \<Longrightarrow> UNDO_STACK_FILE st \<noteq> [] \<Longrightarrow>
   stacks_within_capacity (snd (popFromUndoStack st))"
  by (cases "REDO_STACK_FILE st")
     (auto simp: stacks_within_capacity_def popFromUndoStack_eq MAX_UNDO_REDO_STATES_def)

lemma pop_redo_within_capacity:
  "stacks_within_capacity st \<Longrightarrow> REDO_STACK_FILE st \<noteq> [] \<Longrightarrow>
   stacks_within_capacity (snd (popFromRedoStack st))"
  by (cases "UNDO_STACK_FILE st")
     (auto simp: stacks_within_capacity_def popFromRedoStack_eq MAX_UNDO_REDO_STATES_def)

lemma invoke_within_capacity:
  assumes "stacks_within_capacity st"
  shows "stacks_within_capacity (snd (invoke parseDate c st))"
proof (cases c)
  case (Add now argv)
  then show ?thesis
    using add_handler_state [of parseDate now argv st] mutation_within_capacity [OF assms]
    by (metis invoke.simps(1))
next
  case (Edit argv)
  then show ?thesis
    using edit_handler_state [of parseDate argv st] mutation_within_capacity [OF assms] assms
    by (metis invoke.simps(2))
next
  case (Mark i s)
  then show ?thesis
    using mark_handler_state [of i s st] mutation_within_capacity [OF assms] assms
    by (metis invoke.simps(3))
next
  case (Delete confirm now i)
  then show ?thesis
    using delete_handler_state [of confirm now i st] mutation_within_capacity [OF assms] assms
    by (metis invoke.simps(4))
next
  case (Recover i)
  then show ?thesis
    using recover_handler_state [of i st] mutation_within_capacity [OF assms] assms
    by (metis invoke.simps(5))
next
  case (Reset confirm)
  then show ?thesis
    using reset_handler_state [of confirm st] mutation_within_capacity [OF assms] assms
    by (metis invoke.simps(6))
next
  case (Undo confirm)
  then show ?thesis
    using undo_handler_state [of confirm st] pop_undo_within_capacity [OF assms] assms
    by (metis invoke.simps(7))
next
  case (Redo confirm)
  then show ?thesis
    using redo_handler_state [of confirm st] pop_redo_within_capacity [OF assms] assms
    by (metis invoke.simps(8))
qed

lemma session_within_capacity:
  "stacks_within_capacity st \<Longrightarrow> stacks_within_capacity (snd (session parseDate cs st))"
proof (induction cs arbitrary: st)
  case Nil
  then show ?case by simp
next
  case (Cons c cs)
  from Cons.IH [OF invoke_within_capacity [OF Cons.prems, of parseDate c]]
  show ?case
    by (simp split: prod.split) (metis snd_conv)
qed

section \<open>Properties of the assigned ids\<close>

lemma bit_length_bound: "n < 2 ^ k \<Longrightarrow> bit_length n \<le> k"
proof (induction k arbitrary: n)
  case 0
  then show ?case by (simp add: bit_length.simps)
next
  case (Suc k)
  show ?case
  proof (cases "n = 0")
    case True
    then show ?thesis by (simp add: bit_length.simps)
  next
    case False
    have "n div 2 < 2 ^ k"
      using Suc.prems by simp
    then have "bit_length (n div 2) \<le> k"
      by (rule Suc.IH)
    then show ?thesis
      using False by (subst bit_length.simps) simp
  qed
qed

lemma bit_length_eq: "2 ^ k \<le> n \<Longrightarrow> n < 2 ^ Suc k \<Longrightarrow> bit_length n = Suc k"
proof (induction k arbitrary: n)
  case 0
  then have "n = 1" by simp
  then show ?case by (simp add: bit_length.simps)
next
  case (Suc k)
  have "2 ^ k \<le> n div 2" and "n div 2 < 2 ^ Suc k"
    using Suc.prems by simp_all
  then have "bit_length (n div 2) = Suc k"
    by (rule Suc.IH)
  moreover have "n \<noteq> 0"
    using Suc.prems by auto
  ultimately show ?case
    by (subst bit_length.simps) simp
qed

lemma bit_length_2_53: "bit_length (nat \<bar>2 ^ 53 :: int\<bar>) = 54"
  "bit_length (nat \<bar>2 ^ 53 + 1 :: int\<bar>) = 54"
  using bit_length_eq [of 53 "nat \<bar>2 ^ 53 :: int\<bar>"]
    bit_length_eq [of 53 "nat \<bar>2 ^ 53 + 1 :: int\<bar>"]
  by simp_all

lemma round_to_double_2_53: "round_to_double (2 ^ 53) = 2 ^ 53"
  using bit_length_2_53(1) by (simp add: round_to_double_def Let_def)

lemma round_to_double_tie: "round_to_double (2 ^ 53 + 1) = 2 ^ 53"
  using bit_length_2_53(2) by (simp add: round_to_double_def Let_def)

lemma foldl_max_Max: "foldl max (i::int) ids = Max (set (i # ids))"
proof (induction ids arbitrary: i)
  case Nil
  then show ?case by simp
next
  case (Cons j ids)
  have "foldl max i (j # ids) = Max (set (max i j # ids))"
    using Cons.IH [of "max i j"] by simp
  also have "\<dots> = Max (set (i # j # ids))"
    by (cases "ids = []") (auto simp: max.assoc)
  finally show ?case .
qed

lemma round_to_double_exact: "\<bar>n\<bar> < 2 ^ 53 \<Longrightarrow> round_to_double n = n"
proof -
  assume "\<bar>n\<bar> < 2 ^ 53"
  then have "nat \<bar>n\<bar> < 2 ^ 53"
    by (simp add: nat_less_iff)
  then have "bit_length (nat \<bar>n\<bar>) \<le> 53"
    by (rule bit_length_bound)
  then show ?thesis
    by (simp add: round_to_double_def)
qed

lemma round_to_double_safe:
  assumes "- (2 ^ 53) < n" "n \<le> 2 ^ 53"
  shows "round_to_double n = n"
proof (cases "n = 2 ^ 53")
  case True
  then show ?thesis using round_to_double_2_53 by simp
next
  case False
  then have "\<bar>n\<bar> < 2 ^ 53"
    using assms by simp
  then show ?thesis by (rule round_to_double_exact)
qed

lemma newId_Cons: "newId (r # rs) = round_to_double (Max (inst_id ` set (r # rs)) + 1)"
  unfolding newId_def by (simp only: list.map list.case foldl_max_Max set_map list.set image_insert)

lemma newId_Max:
  assumes "\<forall>r\<in>set store. - (2 ^ 53) \<le> inst_id r \<and> inst_id r < 2 ^ 53"
  shows "newId store = (if store = [] then 1 else Max (inst_id ` set store) + 1)"
proof (cases store)
  case Nil
  then show ?thesis by (simp add: newId_def)
next
  case (Cons r rs)
  define m where "m = Max (inst_id ` set store)"
  have ne: "inst_id ` set store \<noteq> {}" and fin: "finite (inst_id ` set store)"
    using Cons by simp_all
  have "m \<in> inst_id ` set store"
    unfolding m_def using Max_in [OF fin ne] .
  then have "- (2 ^ 53) \<le> m \<and> m < 2 ^ 53"
    using assms by auto
  then have "round_to_double (m + 1) = m + 1"
    by (intro round_to_double_safe) simp_all
  moreover have "newId store = round_to_double (m + 1)"
    unfolding m_def Cons by (rule newId_Cons)
  ultimately have "newId store = m + 1"
    by simp
  then show ?thesis
    using Cons by (simp add: m_def)
qed

lemma newId_greater:
  assumes "\<forall>r\<in>set store. - (2 ^ 53) \<le> inst_id r \<and> inst_id r < 2 ^ 53" "r \<in> set store"
  shows "inst_id r < newId store"
proof -
  have "store \<noteq> []" using assms(2) by auto
  moreover have "inst_id r \<le> Max (inst_id ` set store)"
    using assms(2) by simp
  ultimately show ?thesis
    using newId_Max [OF assms(1)] by simp
qed

lemma within_limits_ids:
  "within_limits n store \<Longrightarrow> \<forall>r\<in>set store. - (2 ^ 53) \<le> inst_id r \<and> inst_id r < 2 ^ 53"
  by (fastforce simp: within_limits_def)

lemma newId_within:
  assumes "within_limits (Suc n) store"
  shows "- (2 ^ 53) \<le> newId store \<and> newId store + int n < 2 ^ 53"
proof (cases "store = []")
  case True
  have "int n < 65535"
    using assms by (simp add: within_limits_def spread_limit_def)
  then show ?thesis
    using True by (simp add: newId_def)
next
  case False
  define m where "m = Max (inst_id ` set store)"
  have "m \<in> inst_id ` set store"
    unfolding m_def using False by (intro Max_in) simp_all
  then have "- (2 ^ 53) \<le> m \<and> m + int (Suc n) < 2 ^ 53"
    using assms by (auto simp: within_limits_def)
  moreover have "newId store = m + 1"
    using newId_Max [OF within_limits_ids [OF assms]] False by (simp add: m_def)
  ultimately show ?thesis
    by simp
qed

lemma add_handler_eq:
  "add_handler parseDate now argv st =
     (case given (a_deadline argv) of
        None \<Rightarrow>
          (InstructionAdded (newId (DATA_PATH st)),
           mutation st (''add'', DATA_PATH st @
             [\<lparr>inst_id = newId (DATA_PATH st), source = a_source argv,
               inst_text = a_instruction argv, added = now, priority = a_priority argv,
               deadline = None, status = ''pending'', isDeleted = False, deletedAt = None\<rparr>]))
      | Some d \<Rightarrow>
          (case parseDate d of
             None \<Rightarrow> (InvalidDeadlineFormat, clearRedoStack (pushToUndoStack ''add'' st))
           | Some isoString \<Rightarrow>
               (InstructionAdded (newId (DATA_PATH st)),
                mutation st (''add'', DATA_PATH st @
                  [\<lparr>inst_id = newId (DATA_PATH st), source = a_source argv,
                    inst_text = a_instruction argv, added = now, priority = a_priority argv,
                    deadline = Some isoString, status = ''pending'', isDeleted = False,
                    deletedAt = None\<rparr>]))))"
  by (simp add: add_handler_def Let_def mutation_def clearRedoStack_def
      loadInstructions_def push_undo_other split: option.split)

lemma clear_push_data: "DATA_PATH (clearRedoStack (pushToUndoStack c st)) = DATA_PATH st"
  by (simp add: clearRedoStack_def push_undo_other)

lemma add_handler_ids:
  "map inst_id (DATA_PATH (snd (add_handler parseDate now argv st))) =
     map inst_id (DATA_PATH st) @ assigned_ids [fst (add_handler parseDate now argv st)]"
  by (simp add: add_handler_eq mutation_fields clear_push_data split: option.split)

lemma add_handler_assigned:
  "a \<in> set (assigned_ids [fst (add_handler parseDate now argv st)]) \<Longrightarrow> a = newId (DATA_PATH st)"
  by (simp add: add_handler_eq split: option.splits)

lemma findIndex_Some: "findIndex P xs = Some i \<Longrightarrow> i < length xs \<and> P (xs ! i)"
proof (induction xs arbitrary: i)
  case Nil
  then show ?case by simp
next
  case (Cons x xs)
  then show ?case
    by (cases "P x") auto
qed


lemma map_id_update:
  "i < length xs \<Longrightarrow> inst_id r = inst_id (xs ! i) \<Longrightarrow> map inst_id (xs[i := r]) = map inst_id xs"
  by (simp add: map_update list_update_same_conv)

lemma edit_handler_ids:
  "map inst_id (DATA_PATH (snd (edit_handler parseDate argv st))) = map inst_id (DATA_PATH st)"
  by (auto simp: edit_handler_def Let_def loadInstructions_def saveInstructions_def
      clear_push_data map_id_update dest!: findIndex_Some split: option.split prod.split)

lemma edit_handler_assigned: "assigned_ids [fst (edit_handler parseDate argv st)] = []"
  by (auto simp: edit_handler_def Let_def split: option.split prod.split)

lemma mark_handler_ids:
  "map inst_id (DATA_PATH (snd (mark_handler i s st))) = map inst_id (DATA_PATH st)"
  by (auto simp: mark_handler_def Let_def loadInstructions_def saveInstructions_def
      clear_push_data map_id_update dest!: findIndex_Some split: option.split)

lemma mark_handler_assigned: "assigned_ids [fst (mark_handler i s st)] = []"
  by (auto simp: mark_handler_def Let_def split: option.split)

lemma delete_handler_ids:
  "map inst_id (DATA_PATH (snd (delete_handler confirm now i st))) = map inst_id (DATA_PATH st)"
  by (auto simp: delete_handler_def Let_def loadInstructions_def saveInstructions_def
      clear_push_data map_id_update dest!: findIndex_Some split: option.split)

lemma delete_handler_assigned: "assigned_ids [fst (delete_handler confirm now i st)] = []"
  by (auto simp: delete_handler_def Let_def split: option.split)

lemma recover_handler_ids:
  "map inst_id (DATA_PATH (snd (recover_handler i st))) = map inst_id (DATA_PATH st)"
  by (auto simp: recover_handler_def Let_def loadInstructions_def saveInstructions_def
      clear_push_data map_id_update dest!: findIndex_Some split: option.split)

lemma recover_handler_assigned: "assigned_ids [fst (recover_handler i st)] = []"
  by (auto simp: recover_handler_def Let_def split: option.split)

lemma invoke_ids:
  "keeps_records c \<Longrightarrow>
   map inst_id (DATA_PATH (snd (invoke parseDate c st))) =
     map inst_id (DATA_PATH st) @ assigned_ids [fst (invoke parseDate c st)]"
  by (cases c)
     (simp_all add: add_handler_ids edit_handler_ids edit_handler_assigned mark_handler_ids
        mark_handler_assigned delete_handler_ids delete_handler_assigned recover_handler_ids
        recover_handler_assigned)

lemma invoke_assigned:
  "a \<in> set (assigned_ids [fst (invoke parseDate c st)]) \<Longrightarrow>
   keeps_records c \<Longrightarrow> a = newId (DATA_PATH st)"
  by (cases c)
     (simp_all add: add_handler_assigned edit_handler_assigned mark_handler_assigned
        delete_handler_assigned recover_handler_assigned)

lemma assigned_ids_Cons: "assigned_ids (out # outs) = assigned_ids [out] @ assigned_ids outs"
  by (cases out) simp_all

lemma assigned_ids_single: "length (assigned_ids [out]) \<le> 1"
  by (cases out) simp_all

lemma session_Cons:
  "fst (session parseDate (c # cs) st) =
     fst (invoke parseDate c st) # fst (session parseDate cs (snd (invoke parseDate c st)))"
  "snd (session parseDate (c # cs) st) =
     snd (session parseDate cs (snd (invoke parseDate c st)))"
  by (simp_all split: prod.split)

lemma add_handler_outcome:
  "fst (add_handler parseDate now argv st) =
     (if creates parseDate (Add now argv) then InstructionAdded (newId (DATA_PATH st))
      else InvalidDeadlineFormat)"
  by (simp add: add_handler_eq split: option.splits)

lemma add_handler_record:
  assumes "creates parseDate (Add now argv)"
  shows "\<exists>r. DATA_PATH (snd (add_handler parseDate now argv st)) = DATA_PATH st @ [r] \<and>
             inst_id r = newId (DATA_PATH st) \<and> source r = a_source argv \<and>
             inst_text r = a_instruction argv \<and> added r = now \<and>
             priority r = a_priority argv \<and> status r = ''pending'' \<and> \<not> isDeleted r \<and>
             deletedAt r = None"
  using assms by (auto simp: add_handler_eq mutation_fields split: option.splits)

lemma invoke_assigned_creates:
  "keeps_records c \<Longrightarrow>
   assigned_ids [fst (invoke parseDate c st)] =
     (if creates parseDate c then [newId (DATA_PATH st)] else [])"
  by (cases c)
     (simp_all add: add_handler_outcome edit_handler_assigned mark_handler_assigned
        delete_handler_assigned recover_handler_assigned)

lemma within_limits_map:
  "within_limits n store \<longleftrightarrow>
     length (map inst_id store) + n \<le> spread_limit \<and>
     (\<forall>i\<in>set (map inst_id store). - (2 ^ 53) \<le> i \<and> i + int n < 2 ^ 53)"
  by (simp add: within_limits_def)

lemma within_limits_step:
  assumes "keeps_records c" "within_limits (Suc n) (DATA_PATH st)"
  shows "within_limits n (DATA_PATH (snd (invoke parseDate c st)))"
proof -
  define ids where "ids = map inst_id (DATA_PATH st)"
  define a where "a = assigned_ids [fst (invoke parseDate c st)]"
  have ids': "map inst_id (DATA_PATH (snd (invoke parseDate c st))) = ids @ a"
    unfolding ids_def a_def using invoke_ids [OF assms(1)] .
  have l: "length ids + Suc n \<le> spread_limit"
    and b: "\<forall>i\<in>set ids. - (2 ^ 53) \<le> i \<and> i + int (Suc n) < 2 ^ 53"
    using assms(2) unfolding ids_def within_limits_map by simp_all
  have a1: "length a \<le> 1"
    unfolding a_def by (rule assigned_ids_single)
  have a2: "\<forall>i\<in>set a. - (2 ^ 53) \<le> i \<and> i + int n < 2 ^ 53"
    using invoke_assigned_creates [OF assms(1), of parseDate st] newId_within [OF assms(2)]
    unfolding a_def by (auto split: if_splits)
  have "length (ids @ a) + n \<le> spread_limit"
    using l a1 by simp
  moreover have "\<forall>i\<in>set (ids @ a). - (2 ^ 53) \<le> i \<and> i + int n < 2 ^ 53"
    using b a2 by auto
  ultimately show ?thesis
    unfolding within_limits_map ids' by blast
qed

lemma session_assigned_increasing:
  "\<forall>c\<in>set cs. keeps_records c \<Longrightarrow> within_limits (length cs) (DATA_PATH st) \<Longrightarrow>
   sorted_wrt (<) (assigned_ids (fst (session parseDate cs st))) \<and>
   (\<forall>a\<in>set (assigned_ids (fst (session parseDate cs st))).
      \<forall>i\<in>set (map inst_id (DATA_PATH st)). i < a) \<and>
   length (assigned_ids (fst (session parseDate cs st))) =
     length (filter (creates parseDate) cs) \<and>
   map inst_id (DATA_PATH (snd (session parseDate cs st))) =
     map inst_id (DATA_PATH st) @ assigned_ids (fst (session parseDate cs st))"
proof (induction cs arbitrary: st)
  case Nil
  then show ?case by simp
next
  case (Cons c cs)
  let ?out = "fst (invoke parseDate c st)"
  let ?st' = "snd (invoke parseDate c st)"
  let ?rest = "assigned_ids (fst (session parseDate cs ?st'))"
  have kc: "keeps_records c" and kcs: "\<forall>c\<in>set cs. keeps_records c"
    using Cons.prems(1) by simp_all
  have wl: "within_limits (Suc (length cs)) (DATA_PATH st)"
    using Cons.prems(2) by simp
  have wl': "within_limits (length cs) (DATA_PATH ?st')"
    using within_limits_step [OF kc wl] .
  note ih = Cons.IH [OF kcs wl']
  have ids: "map inst_id (DATA_PATH ?st') = map inst_id (DATA_PATH st) @ assigned_ids [?out]"
    using invoke_ids [OF kc] .
  have cr: "assigned_ids [?out] = (if creates parseDate c then [newId (DATA_PATH st)] else [])"
    using invoke_assigned_creates [OF kc] .
  have new: "\<forall>a\<in>set (assigned_ids [?out]). \<forall>i\<in>set (map inst_id (DATA_PATH st)). i < a"
    using cr newId_greater [OF within_limits_ids [OF wl]] by (auto split: if_splits)
  have single: "sorted_wrt (<) (assigned_ids [?out])"
    using cr by simp
  have eq: "assigned_ids (fst (session parseDate (c # cs) st)) = assigned_ids [?out] @ ?rest"
    unfolding session_Cons by (rule assigned_ids_Cons)
  have fin: "snd (session parseDate (c # cs) st) = snd (session parseDate cs ?st')"
    by (rule session_Cons)
  define A where "A = assigned_ids [?out]"
  define R where "R = ?rest"
  define I where "I = map inst_id (DATA_PATH st)"
  define I' where "I' = map inst_id (DATA_PATH ?st')"
  define F where "F = map inst_id (DATA_PATH (snd (session parseDate cs ?st')))"
  have "sorted_wrt (<) R" and "\<forall>a\<in>set R. \<forall>i\<in>set I'. i < a" and "I' = I @ A"
    and "\<forall>a\<in>set A. \<forall>i\<in>set I. i < a" and "sorted_wrt (<) A"
    and "length R = length (filter (creates parseDate) cs)" and "F = I' @ R"
    and "length A = (if creates parseDate c then 1 else 0)"
    using ih ids new single cr unfolding A_def R_def I_def I'_def F_def by simp_all
  then have "sorted_wrt (<) (A @ R) \<and> (\<forall>a\<in>set (A @ R). \<forall>i\<in>set I. i < a) \<and>
      length (A @ R) = length (filter (creates parseDate) (c # cs)) \<and> F = I @ (A @ R)"
    by (auto simp: sorted_wrt_append)
  then show ?case
    unfolding eq fin A_def R_def I_def F_def .
qed

lemma round_to_double_tie_numeral: "round_to_double 9007199254740993 = 9007199254740992"
  using round_to_double_tie by simp

lemma newId_large:
  "inst_id r = 9007199254740992 \<Longrightarrow> newId [r] = 9007199254740992"
  "inst_id r = 9007199254740992 \<Longrightarrow> inst_id r' = 9007199254740992 \<Longrightarrow>
   newId [r, r'] = 9007199254740992"
  by (simp_all add: newId_def round_to_double_tie_numeral)

lemma example_session_ids:
  "assigned_ids (fst (session example_parseDate
     [Add example_now example_argv, Delete True example_now 1, Add example_now example_argv]
     initial_state)) = [1, 2]"
  by (simp add: initial_state_def example_argv_def add_handler_eq given_def newId_def
      mutation_fields delete_handler_def loadInstructions_def saveInstructions_def
      clearRedoStack_def push_undo_other round_to_double_exact)

section \<open>The claims about the history\<close>

text \<open>
  Claim C1, amended. \<open>undo\<close> on a non-empty Undo stack pops the top entry, returns its
  command name, pushes the current (pre-undo) store under the same name onto Redo and
  replaces the store with the popped snapshot, which is the state immediately before the
  undone mutation. A \<open>redo\<close> that follows restores the store to its state immediately
  before the \<open>undo\<close>, that is immediately after the undone mutation, and puts the popped
  entry back on top of Undo. \<open>redo\<close> is symmetric: on a non-empty Redo stack it pops the
  top entry, pushes the current store onto Undo and replaces the store, and an \<open>undo\<close>
  that follows restores the store as it was before the \<open>redo\<close>.
\<close>

theorem C1_undo_then_redo:
  "(UNDO_STACK_FILE st \<noteq> [] \<longrightarrow>
      fst (popFromUndoStack st) = Some (command (last (UNDO_STACK_FILE st))) \<and>
      DATA_PATH (snd (popFromUndoStack st)) = data (last (UNDO_STACK_FILE st)) \<and>
      UNDO_STACK_FILE (snd (popFromUndoStack st)) = butlast (UNDO_STACK_FILE st) \<and>
      last (REDO_STACK_FILE (snd (popFromUndoStack st))) =
        \<lparr>command = command (last (UNDO_STACK_FILE st)), data = DATA_PATH st\<rparr> \<and>
      fst (popFromRedoStack (snd (popFromUndoStack st))) =
        Some (command (last (UNDO_STACK_FILE st))) \<and>
      DATA_PATH (snd (popFromRedoStack (snd (popFromUndoStack st)))) = DATA_PATH st \<and>
      last (UNDO_STACK_FILE (snd (popFromRedoStack (snd (popFromUndoStack st))))) =
        last (UNDO_STACK_FILE st)) \<and>
   (REDO_STACK_FILE st \<noteq> [] \<longrightarrow>
      fst (popFromRedoStack st) = Some (command (last (REDO_STACK_FILE st))) \<and>
      DATA_PATH (snd (popFromRedoStack st)) = data (last (REDO_STACK_FILE st)) \<and>
      REDO_STACK_FILE (snd (popFromRedoStack st)) = butlast (REDO_STACK_FILE st) \<and>
      last (UNDO_STACK_FILE (snd (popFromRedoStack st))) =
        \<lparr>command = command (last (REDO_STACK_FILE st)), data = DATA_PATH st\<rparr> \<and>
      DATA_PATH (snd (popFromUndoStack (snd (popFromRedoStack st)))) = DATA_PATH st)"
proof (intro conjI impI)
  assume u: "UNDO_STACK_FILE st \<noteq> []"
  let ?st1 = "snd (popFromUndoStack st)"
  have r1: "REDO_STACK_FILE ?st1 \<noteq> []"
    using u by (simp add: popFromUndoStack_eq)
  show "fst (popFromUndoStack st) = Some (command (last (UNDO_STACK_FILE st)))"
    using u by (simp add: popFromUndoStack_eq)
  show "DATA_PATH ?st1 = data (last (UNDO_STACK_FILE st))"
    using u by (simp add: popFromUndoStack_eq)
  show "UNDO_STACK_FILE ?st1 = butlast (UNDO_STACK_FILE st)"
    using u by (simp add: popFromUndoStack_eq)
  show "last (REDO_STACK_FILE ?st1) =
          \<lparr>command = command (last (UNDO_STACK_FILE st)), data = DATA_PATH st\<rparr>"
    using u by (simp add: popFromUndoStack_eq)
  show "fst (popFromRedoStack ?st1) = Some (command (last (UNDO_STACK_FILE st)))"
    using u r1 by (simp add: popFromRedoStack_eq) (simp add: popFromUndoStack_eq)
  show "DATA_PATH (snd (popFromRedoStack ?st1)) = DATA_PATH st"
    using u r1 by (simp add: popFromRedoStack_eq) (simp add: popFromUndoStack_eq)
  show "last (UNDO_STACK_FILE (snd (popFromRedoStack ?st1))) = last (UNDO_STACK_FILE st)"
    using u r1 by (simp add: popFromRedoStack_eq) (simp add: popFromUndoStack_eq)
next
  assume r: "REDO_STACK_FILE st \<noteq> []"
  let ?st1 = "snd (popFromRedoStack st)"
  have u1: "UNDO_STACK_FILE ?st1 \<noteq> []"
    using r by (simp add: popFromRedoStack_eq)
  show "fst (popFromRedoStack st) = Some (command (last (REDO_STACK_FILE st)))"
    using r by (simp add: popFromRedoStack_eq)
  show "DATA_PATH ?st1 = data (last (REDO_STACK_FILE st))"
    using r by (simp add: popFromRedoStack_eq)
  show "REDO_STACK_FILE ?st1 = butlast (REDO_STACK_FILE st)"
    using r by (simp add: popFromRedoStack_eq)
  show "last (UNDO_STACK_FILE ?st1) =
          \<lparr>command = command (last (REDO_STACK_FILE st)), data = DATA_PATH st\<rparr>"
    using r by (simp add: popFromRedoStack_eq)
  show "DATA_PATH (snd (popFromUndoStack ?st1)) = DATA_PATH st"
    using r u1 by (simp add: popFromUndoStack_eq) (simp add: popFromRedoStack_eq)
qed

theorem C1_undo_then_redo_witness:
  "UNDO_STACK_FILE example_state \<noteq> [] \<and> REDO_STACK_FILE example_state \<noteq> [] \<and>
   DATA_PATH (snd (popFromUndoStack example_state)) = [] \<and>
   DATA_PATH (snd (popFromRedoStack (snd (popFromUndoStack example_state)))) =
     [example_instruction] \<and>
   DATA_PATH (snd (popFromUndoStack (snd (popFromRedoStack example_state)))) =
     [example_instruction]"
  using C1_undo_then_redo [of example_state]
  by (simp add: example_state_def)

text \<open>
  The claim as it is written fails: \<open>add\<close> on the empty store, then \<open>undo\<close>, then
  \<open>redo\<close>. The state immediately before the undone mutation is the empty store; after
  \<open>undo\<close> and \<open>redo\<close> the store holds the added record.
\<close>

theorem C1_counterexample:
  "DATA_PATH initial_state = [] \<and>
   DATA_PATH (snd (session example_parseDate [Add example_now example_argv] initial_state)) =
     [example_instruction] \<and>
   DATA_PATH (snd (session example_parseDate
       [Add example_now example_argv, Undo True] initial_state)) = [] \<and>
   DATA_PATH (snd (session example_parseDate
       [Add example_now example_argv, Undo True, Redo True] initial_state)) =
     [example_instruction] \<and>
   DATA_PATH (snd (session example_parseDate
       [Add example_now example_argv, Undo True, Redo True] initial_state)) \<noteq>
     DATA_PATH initial_state"
  by (simp add: initial_state_def example_argv_def example_instruction_def add_handler_eq
      given_def newId_def mutation_def saveInstructions_def clearRedoStack_def undo_of_push
      push_undo_other undo_handler_def redo_handler_def popFromUndoStack_eq
      popFromRedoStack_eq)

text \<open>
  Claim C2, evaluated on the code. \<open>add\<close> with a deadline phrase that the parser cannot
  parse reports the invalid deadline and leaves the store as it was, but it has already
  pushed a snapshot onto the Undo stack and emptied the Redo stack: the handler calls
  \<open>pushToUndoStack\<close> and \<open>clearRedoStack\<close> before it parses the deadline.
\<close>

theorem C2_add_unparseable_deadline:
  "add_handler example_parseDate example_now
     (example_argv\<lparr>a_deadline := Some ''no date here''\<rparr>) example_state =
   (InvalidDeadlineFormat,
    \<lparr>DATA_PATH = [example_instruction],
     UNDO_STACK_FILE =
       [\<lparr>command = ''add'', data = []\<rparr>, \<lparr>command = ''add'', data = [example_instruction]\<rparr>],
     REDO_STACK_FILE = []\<rparr>) \<and>
   UNDO_STACK_FILE example_state = [\<lparr>command = ''add'', data = []\<rparr>] \<and>
   REDO_STACK_FILE example_state \<noteq> []"
  by (simp add: add_handler_eq example_argv_def example_parseDate_def example_state_def
      given_def clearRedoStack_def pushToUndoStack_def loadInstructions_def
      MAX_UNDO_REDO_STATES_def)

text \<open>
  Claim C3, amended. While the store and the session are within the limits in which the
  arithmetic of \<open>newId\<close> is exact (every id a safe integer, that is of absolute value
  below \<open>2^53\<close>, also after the session, and no more records than the spread call
  accepts as arguments), the id that \<open>add\<close> assigns is the maximum of the ids in the store
  plus one, or 1 on the empty store, and it is greater than every id in the store.
  \<open>add\<close> assigns this id and appends one record with it unless the deadline phrase is
  not understood. In a session of \<open>add\<close>, \<open>edit\<close>, \<open>mark\<close>, \<open>delete\<close> (soft deletion)
  and \<open>recover\<close> invocations every \<open>add\<close> that creates a record is assigned an id, the
  ids of the store grow by exactly the assigned ids, and the assigned ids are strictly
  increasing, never repeat, and are greater than every id of the store the session
  started from.
\<close>

theorem C3_assigned_ids:
  assumes "\<forall>c\<in>set cs. keeps_records c"
    and "within_limits (length cs) (DATA_PATH st)"
  shows "newId (DATA_PATH st) =
           (if DATA_PATH st = [] then 1 else Max (inst_id ` set (DATA_PATH st)) + 1) \<and>
         (\<forall>r\<in>set (DATA_PATH st). inst_id r < newId (DATA_PATH st)) \<and>
         fst (add_handler parseDate now argv st) =
           (if creates parseDate (Add now argv) then InstructionAdded (newId (DATA_PATH st))
            else InvalidDeadlineFormat) \<and>
         (creates parseDate (Add now argv) \<longrightarrow>
            (\<exists>r. DATA_PATH (snd (add_handler parseDate now argv st)) = DATA_PATH st @ [r] \<and>
                 inst_id r = newId (DATA_PATH st) \<and> source r = a_source argv \<and>
                 inst_text r = a_instruction argv \<and> added r = now \<and>
                 priority r = a_priority argv \<and> status r = ''pending'' \<and>
                 \<not> isDeleted r \<and> deletedAt r = None)) \<and>
         length (assigned_ids (fst (session parseDate cs st))) =
           length (filter (creates parseDate) cs) \<and>
         map inst_id (DATA_PATH (snd (session parseDate cs st))) =
           map inst_id (DATA_PATH st) @ assigned_ids (fst (session parseDate cs st)) \<and>
         sorted_wrt (<) (assigned_ids (fst (session parseDate cs st))) \<and>
         distinct (assigned_ids (fst (session parseDate cs st))) \<and>
         (\<forall>a\<in>set (assigned_ids (fst (session parseDate cs st))).
            \<forall>r\<in>set (DATA_PATH st). inst_id r < a)"
proof (intro conjI)
  note ids = within_limits_ids [OF assms(2)]
  note ses = session_assigned_increasing [OF assms, of parseDate]
  show "newId (DATA_PATH st) =
           (if DATA_PATH st = [] then 1 else Max (inst_id ` set (DATA_PATH st)) + 1)"
    using newId_Max [OF ids] .
  show "\<forall>r\<in>set (DATA_PATH st). inst_id r < newId (DATA_PATH st)"
    using newId_greater [OF ids] by blast
  show "fst (add_handler parseDate now argv st) =
           (if creates parseDate (Add now argv) then InstructionAdded (newId (DATA_PATH st))
            else InvalidDeadlineFormat)"
    by (rule add_handler_outcome)
  show "creates parseDate (Add now argv) \<longrightarrow>
            (\<exists>r. DATA_PATH (snd (add_handler parseDate now argv st)) = DATA_PATH st @ [r] \<and>
                 inst_id r = newId (DATA_PATH st) \<and> source r = a_source argv \<and>
                 inst_text r = a_instruction argv \<and> added r = now \<and>
                 priority r = a_priority argv \<and> status r = ''pending'' \<and>
                 \<not> isDeleted r \<and> deletedAt r = None)"
    using add_handler_record by blast
  show "length (assigned_ids (fst (session parseDate cs st))) =
           length (filter (creates parseDate) cs)"
    using ses by blast
  show "map inst_id (DATA_PATH (snd (session parseDate cs st))) =
           map inst_id (DATA_PATH st) @ assigned_ids (fst (session parseDate cs st))"
    using ses by blast
  have inc: "sorted_wrt (<) (assigned_ids (fst (session parseDate cs st)))"
    using ses by blast
  then show "sorted_wrt (<) (assigned_ids (fst (session parseDate cs st)))" .
  show "distinct (assigned_ids (fst (session parseDate cs st)))"
    using inc strict_sorted_iff by blast
  show "\<forall>a\<in>set (assigned_ids (fst (session parseDate cs st))).
          \<forall>r\<in>set (DATA_PATH st). inst_id r < a"
    using ses by simp
qed

theorem C3_assigned_ids_witness:
  "keeps_records (Add example_now example_argv) \<and>
   keeps_records (Delete True example_now 1) \<and>
   within_limits 3 (DATA_PATH initial_state) \<and>
   fst (add_handler example_parseDate example_now example_argv initial_state) =
     InstructionAdded 1 \<and>
   assigned_ids (fst (session example_parseDate
     [Add example_now example_argv, Delete True example_now 1, Add example_now example_argv]
     initial_state)) = [1, 2] \<and>
   map inst_id (DATA_PATH (snd (session example_parseDate
     [Add example_now example_argv, Delete True example_now 1, Add example_now example_argv]
     initial_state))) = [1, 2]"
proof -
  have h: "\<forall>c\<in>set [Add example_now example_argv, Delete True example_now 1,
             Add example_now example_argv]. keeps_records c"
    by simp
  have w: "within_limits (length [Add example_now example_argv, Delete True example_now 1,
             Add example_now example_argv]) (DATA_PATH initial_state)"
    by (simp add: within_limits_def initial_state_def spread_limit_def)
  have c: "creates example_parseDate (Add example_now example_argv)"
    by (simp add: example_argv_def given_def)
  have d: "DATA_PATH initial_state = []"
    by (simp add: initial_state_def)
  have w3: "within_limits 3 (DATA_PATH initial_state)"
    by (simp add: within_limits_def initial_state_def spread_limit_def)
  have n: "newId [] = 1"
    by (simp add: newId_def)
  show ?thesis
    using h w3 c d n example_session_ids
      C3_assigned_ids [OF h w, of example_parseDate example_now example_argv]
    by simp
qed

text \<open>
  The claim as it is written fails: ids are JavaScript numbers, and on a store whose
  largest id is \<open>2^53\<close> = 9007199254740992 the sum \<open>2^53 + 1\<close> is rounded to \<open>2^53\<close>, so
  \<open>add\<close> assigns the id that is already in the store, and assigns it again the next time.
\<close>

theorem C3_counterexample:
  "map inst_id (DATA_PATH example_large_id_state) = [9007199254740992] \<and>
   newId (DATA_PATH example_large_id_state) = 9007199254740992 \<and>
   fst (add_handler example_parseDate example_now example_argv example_large_id_state) =
     InstructionAdded 9007199254740992 \<and>
   assigned_ids (fst (session example_parseDate
     [Add example_now example_argv, Add example_now example_argv]
     example_large_id_state)) = [9007199254740992, 9007199254740992]"
  by (simp add: example_large_id_state_def example_argv_def add_handler_eq given_def
      newId_large mutation_fields)

lemma most_recent_suffix: "n \<le> length ys \<Longrightarrow> most_recent n (xs @ ys) = most_recent n ys"
  by (simp add: most_recent_def)

lemma length_snapshots: "length (snapshots store ms) = length ms"
  by (simp add: snapshots_def)

text \<open>
  Claim C4. When both stacks hold at most 10 entries, they still do after every session
  of invocations. A push appends the new entry and keeps the 10 most recent entries: on a
  full stack it removes exactly the oldest entry. After a sequence of mutations the Undo
  stack holds the 10 most recent of its old entries and the snapshots taken, in order;
  after more than 10 mutations these are exactly the 10 most recent snapshots.
\<close>

theorem C4_stacks_bounded:
  assumes "stacks_within_capacity st"
  shows "stacks_within_capacity (snd (session parseDate cs st)) \<and>
         UNDO_STACK_FILE (pushToUndoStack c st) =
           most_recent 10 (UNDO_STACK_FILE st @ [\<lparr>command = c, data = DATA_PATH st\<rparr>]) \<and>
         REDO_STACK_FILE (pushToRedoStack c st) =
           most_recent 10 (REDO_STACK_FILE st @ [\<lparr>command = c, data = DATA_PATH st\<rparr>]) \<and>
         (length (UNDO_STACK_FILE st) = 10 \<longrightarrow>
            UNDO_STACK_FILE (pushToUndoStack c st) =
              tl (UNDO_STACK_FILE st) @ [\<lparr>command = c, data = DATA_PATH st\<rparr>]) \<and>
         (length (REDO_STACK_FILE st) = 10 \<longrightarrow>
            REDO_STACK_FILE (pushToRedoStack c st) =
              tl (REDO_STACK_FILE st) @ [\<lparr>command = c, data = DATA_PATH st\<rparr>]) \<and>
         UNDO_STACK_FILE (foldl mutation st ms) =
           most_recent 10 (UNDO_STACK_FILE st @ snapshots (DATA_PATH st) ms) \<and>
         (length ms > 10 \<longrightarrow>
            UNDO_STACK_FILE (foldl mutation st ms) =
              most_recent 10 (snapshots (DATA_PATH st) ms) \<and>
            length (UNDO_STACK_FILE (foldl mutation st ms)) = 10)"
proof -
  have u: "length (UNDO_STACK_FILE st) \<le> 10" and r: "length (REDO_STACK_FILE st) \<le> 10"
    using assms by (simp_all add: stacks_within_capacity_def MAX_UNDO_REDO_STATES_def)
  let ?e = "\<lparr>command = c, data = DATA_PATH st\<rparr>"
  have p1: "stacks_within_capacity (snd (session parseDate cs st))"
    using session_within_capacity [OF assms] .
  have p2: "UNDO_STACK_FILE (pushToUndoStack c st) = most_recent 10 (UNDO_STACK_FILE st @ [?e])"
    using most_recent_push [OF u, of ?e] by (simp add: undo_of_push)
  have p3: "REDO_STACK_FILE (pushToRedoStack c st) = most_recent 10 (REDO_STACK_FILE st @ [?e])"
    using most_recent_push [OF r, of ?e] by (simp add: redo_of_push)
  have p4: "length (UNDO_STACK_FILE st) = 10 \<longrightarrow>
              UNDO_STACK_FILE (pushToUndoStack c st) = tl (UNDO_STACK_FILE st) @ [?e]"
    by (simp add: undo_of_push)
  have p5: "length (REDO_STACK_FILE st) = 10 \<longrightarrow>
              REDO_STACK_FILE (pushToRedoStack c st) = tl (REDO_STACK_FILE st) @ [?e]"
    by (simp add: redo_of_push)
  have p6: "UNDO_STACK_FILE (foldl mutation st ms) =
              most_recent 10 (UNDO_STACK_FILE st @ snapshots (DATA_PATH st) ms)"
    using undo_after_mutations [OF u] .
  have p7: "length ms > 10 \<longrightarrow>
              UNDO_STACK_FILE (foldl mutation st ms) =
                most_recent 10 (snapshots (DATA_PATH st) ms) \<and>
              length (UNDO_STACK_FILE (foldl mutation st ms)) = 10"
  proof
    assume l: "length ms > 10"
    then have "most_recent 10 (UNDO_STACK_FILE st @ snapshots (DATA_PATH st) ms) =
                 most_recent 10 (snapshots (DATA_PATH st) ms)"
      by (simp add: most_recent_suffix length_snapshots)
    moreover have "length (most_recent 10 (snapshots (DATA_PATH st) ms)) = 10"
      using l by (simp add: most_recent_def length_snapshots)
    ultimately show "UNDO_STACK_FILE (foldl mutation st ms) =
                most_recent 10 (snapshots (DATA_PATH st) ms) \<and>
              length (UNDO_STACK_FILE (foldl mutation st ms)) = 10"
      using p6 by simp
  qed
  show ?thesis
    using p1 p2 p3 p4 p5 p6 p7 by blast
qed

theorem C4_stacks_bounded_witness:
  "stacks_within_capacity initial_state \<and>
   stacks_within_capacity (snd (session example_parseDate [Reset True] initial_state)) \<and>
   length (UNDO_STACK_FILE (foldl mutation initial_state (replicate 11 (''reset'', [])))) = 10"
proof -
  have h: "stacks_within_capacity initial_state"
    by (simp add: stacks_within_capacity_def initial_state_def)
  have l: "length (replicate 11 (''reset'', [])) > 10"
    by simp
  show ?thesis
    using h l C4_stacks_bounded [OF h, of example_parseDate "[Reset True]" "''add''"
        "replicate 11 (''reset'', [])"]
    by blast
qed

section \<open>Results of the mutating handlers\<close>

lemma find_findIndex: "List.find P xs = map_option (\<lambda>k. xs ! k) (findIndex P xs)"
  by (induction xs) (simp_all add: option.map_comp comp_def)


lemma findIndex_find_Some: "List.find P xs = Some r \<Longrightarrow> \<exists>k. findIndex P xs = Some k \<and> xs ! k = r"
  by (auto simp: find_findIndex)

lemma find_update:
  "findIndex P xs = Some k \<Longrightarrow> P r \<Longrightarrow> List.find P (xs[k := r]) = Some r"
proof (induction xs arbitrary: k)
  case Nil
  then show ?case by simp
next
  case (Cons x xs)
  then show ?case
    by (cases "P x") auto
qed







lemma edit_no_changes:
  "find_record (e_id argv) (DATA_PATH st) = Some r \<Longrightarrow> \<not> isDeleted r \<Longrightarrow>
   given (e_source argv) = None \<Longrightarrow> given (e_instruction argv) = None \<Longrightarrow>
   given (e_priority argv) = None \<Longrightarrow> given (e_status argv) = None \<Longrightarrow>
   given (e_deadline argv) = None \<Longrightarrow>
   edit_handler parseDate argv st = (NoChangesProvided, st)"
  by (auto simp: edit_handler_def Let_def loadInstructions_def find_record_def
      dest!: findIndex_find_Some)










lemma given_Some: "given x = Some s \<Longrightarrow> s \<noteq> [] \<and> x = Some s"
  by (auto simp: given_def split: option.splits if_splits)

lemma given_None: "given x = None \<longleftrightarrow> x = None \<or> x = Some []"
  by (auto simp: given_def split: option.splits)

lemma edit_empty_source:
  "edit_handler parseDate (argv\<lparr>e_source := Some []\<rparr>) st =
   edit_handler parseDate (argv\<lparr>e_source := None\<rparr>) st"
  by (simp add: edit_handler_def given_def Let_def cong: if_cong option.case_cong)

lemma edit_empty_instruction:
  "edit_handler parseDate (argv\<lparr>e_instruction := Some []\<rparr>) st =
   edit_handler parseDate (argv\<lparr>e_instruction := None\<rparr>) st"
  by (simp add: edit_handler_def given_def Let_def cong: if_cong option.case_cong)

lemma edit_length:
  "length (DATA_PATH (snd (edit_handler parseDate argv st))) = length (DATA_PATH st)"
  by (auto simp: edit_handler_def Let_def loadInstructions_def saveInstructions_def
      clear_push_data split: option.split prod.split)

lemma edit_source_nonempty:
  "source (DATA_PATH (snd (edit_handler parseDate argv st)) ! k) = [] \<Longrightarrow>
   k < length (DATA_PATH st) \<Longrightarrow> source (DATA_PATH st ! k) = []"
  by (auto simp: edit_handler_def Let_def loadInstructions_def saveInstructions_def
      clear_push_data nth_list_update dest!: given_Some findIndex_Some
      split: option.splits prod.splits if_splits)

lemma edit_text_nonempty:
  "inst_text (DATA_PATH (snd (edit_handler parseDate argv st)) ! k) = [] \<Longrightarrow>
   k < length (DATA_PATH st) \<Longrightarrow> inst_text (DATA_PATH st ! k) = []"
  by (auto simp: edit_handler_def Let_def loadInstructions_def saveInstructions_def
      clear_push_data nth_list_update dest!: given_Some findIndex_Some
      split: option.splits prod.splits if_splits)

lemma map_field_update:
  "i < length xs \<Longrightarrow> f r = f (xs ! i) \<Longrightarrow> map f (xs[i := r]) = map f xs"
  by (simp add: map_update list_update_same_conv)

lemma edit_source_kept:
  "given (e_source argv) = None \<Longrightarrow>
   map source (DATA_PATH (snd (edit_handler parseDate argv st))) = map source (DATA_PATH st)"
  by (auto simp: edit_handler_def Let_def loadInstructions_def saveInstructions_def
      clear_push_data map_field_update dest!: findIndex_Some split: option.split prod.split)

lemma edit_text_kept:
  "given (e_instruction argv) = None \<Longrightarrow>
   map inst_text (DATA_PATH (snd (edit_handler parseDate argv st))) =
     map inst_text (DATA_PATH st)"
  by (auto simp: edit_handler_def Let_def loadInstructions_def saveInstructions_def
      clear_push_data map_field_update dest!: findIndex_Some split: option.split prod.split)

lemma edit_source_set:
  assumes "find_record (e_id argv) (DATA_PATH st) = Some r" "\<not> isDeleted r"
    "given (e_source argv) = Some s" "given (e_deadline argv) = None"
  shows "fst (edit_handler parseDate argv st) = InstructionUpdated (e_id argv) \<and>
         map_option source (find_record (e_id argv) (DATA_PATH (snd (edit_handler parseDate argv st)))) = Some s"
proof -
  obtain k where k: "findIndex (\<lambda>inst. inst_id inst = e_id argv) (DATA_PATH st) = Some k"
    and rk: "DATA_PATH st ! k = r"
    using assms(1) findIndex_find_Some unfolding find_record_def by force
  have idr: "inst_id r = e_id argv"
    using findIndex_Some [OF k] rk by simp
  have upd: "\<And>r'. inst_id r' = e_id argv \<Longrightarrow>
     List.find (\<lambda>inst. inst_id inst = e_id argv) ((DATA_PATH st)[k := r']) = Some r'"
    using find_update [OF k] by simp
  show ?thesis
    using assms(2,3,4) k rk idr
    by (auto simp: edit_handler_def Let_def loadInstructions_def find_record_def
        saveInstructions_def clear_push_data upd split: option.split)
qed




text \<open>
  Claim C10. An \<open>edit\<close> whose new source or new instruction text is the empty string
  behaves as if that option was not supplied: the field keeps its value, and when no
  other option is supplied the result is "No changes provided" with the store and both
  stacks unchanged. No \<open>edit\<close> sets a source or a text to the empty string.
\<close>

theorem C10_edit_empty_string:
  "edit_handler parseDate (argv\<lparr>e_source := Some []\<rparr>) st =
     edit_handler parseDate (argv\<lparr>e_source := None\<rparr>) st \<and>
   edit_handler parseDate (argv\<lparr>e_instruction := Some []\<rparr>) st =
     edit_handler parseDate (argv\<lparr>e_instruction := None\<rparr>) st \<and>
   (e_source argv = Some [] \<longrightarrow>
      map source (DATA_PATH (snd (edit_handler parseDate argv st))) =
        map source (DATA_PATH st)) \<and>
   (e_instruction argv = Some [] \<longrightarrow>
      map inst_text (DATA_PATH (snd (edit_handler parseDate argv st))) =
        map inst_text (DATA_PATH st)) \<and>
   (\<forall>r. find_record (e_id argv) (DATA_PATH st) = Some r \<and> \<not> isDeleted r \<and>
        (e_source argv = Some [] \<or> e_source argv = None) \<and>
        (e_instruction argv = Some [] \<or> e_instruction argv = None) \<and>
        e_priority argv = None \<and> e_status argv = None \<and> e_deadline argv = None \<longrightarrow>
      edit_handler parseDate argv st = (NoChangesProvided, st)) \<and>
   length (DATA_PATH (snd (edit_handler parseDate argv st))) = length (DATA_PATH st) \<and>
   (\<forall>k < length (DATA_PATH st).
      (source (DATA_PATH (snd (edit_handler parseDate argv st)) ! k) = [] \<longrightarrow>
         source (DATA_PATH st ! k) = []) \<and>
      (inst_text (DATA_PATH (snd (edit_handler parseDate argv st)) ! k) = [] \<longrightarrow>
         inst_text (DATA_PATH st ! k) = []))"
proof (intro conjI)
  show "edit_handler parseDate (argv\<lparr>e_source := Some []\<rparr>) st =
     edit_handler parseDate (argv\<lparr>e_source := None\<rparr>) st"
    by (rule edit_empty_source)
  show "edit_handler parseDate (argv\<lparr>e_instruction := Some []\<rparr>) st =
     edit_handler parseDate (argv\<lparr>e_instruction := None\<rparr>) st"
    by (rule edit_empty_instruction)
  show "e_source argv = Some [] \<longrightarrow>
      map source (DATA_PATH (snd (edit_handler parseDate argv st))) =
        map source (DATA_PATH st)"
    by (simp add: edit_source_kept given_None)
  show "e_instruction argv = Some [] \<longrightarrow>
      map inst_text (DATA_PATH (snd (edit_handler parseDate argv st))) =
        map inst_text (DATA_PATH st)"
    by (simp add: edit_text_kept given_None)
  show "\<forall>r. find_record (e_id argv) (DATA_PATH st) = Some r \<and> \<not> isDeleted r \<and>
        (e_source argv = Some [] \<or> e_source argv = None) \<and>
        (e_instruction argv = Some [] \<or> e_instruction argv = None) \<and>
        e_priority argv = None \<and> e_status argv = None \<and> e_deadline argv = None \<longrightarrow>
      edit_handler parseDate argv st = (NoChangesProvided, st)"
    using edit_no_changes [of argv st _ parseDate] by (auto simp: given_None)
  show "length (DATA_PATH (snd (edit_handler parseDate argv st))) = length (DATA_PATH st)"
    by (rule edit_length)
  show "\<forall>k < length (DATA_PATH st).
      (source (DATA_PATH (snd (edit_handler parseDate argv st)) ! k) = [] \<longrightarrow>
         source (DATA_PATH st ! k) = []) \<and>
      (inst_text (DATA_PATH (snd (edit_handler parseDate argv st)) ! k) = [] \<longrightarrow>
         inst_text (DATA_PATH st ! k) = [])"
    using edit_source_nonempty edit_text_nonempty by blast
qed

theorem C10_edit_empty_string_witness:
  "edit_handler example_parseDate example_edit example_state =
     (NoChangesProvided, example_state) \<and>
   map source (DATA_PATH (snd (edit_handler example_parseDate example_edit example_state))) =
     [''work'']"
proof -
  have f: "find_record (e_id example_edit) (DATA_PATH example_state) = Some example_instruction"
    by (simp add: find_record_def example_state_def example_instruction_def example_edit_def)
  have d: "\<not> isDeleted example_instruction"
    by (simp add: example_instruction_def)
  have e: "e_source example_edit = Some []" "e_instruction example_edit = Some []"
    "e_priority example_edit = None" "e_status example_edit = None"
    "e_deadline example_edit = None"
    by (simp_all add: example_edit_def)
  have m: "map source (DATA_PATH example_state) = [''work'']"
    by (simp add: example_state_def example_instruction_def)
  show ?thesis
    using f d e m C10_edit_empty_string [of example_parseDate example_edit example_state]
    by auto
qed

section \<open>Properties of the filter engine\<close>

lemma week_of_month_2: "getWeekOfMonth t = 2 \<longleftrightarrow> 8 \<le> getDate t \<and> getDate t \<le> 14"
  by (auto simp: getWeekOfMonth_def ceiling_eq_iff)

lemma given_simps [simp]: "given None = None" "given (Some []) = None"
  "s \<noteq> [] \<Longrightarrow> given (Some s) = Some s"
  by (simp_all add: given_def)

lemma filter_throwing_total:
  "\<forall>x\<in>set xs. p x = Inr (q x) \<Longrightarrow> filter_throwing p xs = Inr (filter q xs)"
  by (induction xs) simp_all

lemma filter_empty_criteria:
  "filterInstructions toLowerCase newDate records empty_criteria =
     Inr (filter (\<lambda>inst. \<not> isDeleted inst) records)"
  by (simp add: filterInstructions_def empty_criteria_def truthy_jsval_def truthy_number_def)

lemma filter_command_state: "snd (filter_command toLowerCase newDate argv st) = st"
  by (simp add: filter_command_def split: sum.split)

lemma filter_without_temporal:
  "filterInstructions toLowerCase newDate records (without_temporal c) = Inr (base_of toLowerCase c records)"
  by (simp add: filterInstructions_def without_temporal_def base_of_def truthy_jsval_def
      truthy_number_def Let_def)

lemma filter_with_temporal:
  "filterInstructions toLowerCase newDate records c =
     (if given (f_date c) \<noteq> None \<or> given (f_day c) \<noteq> None \<or>
          truthy_jsval (f_month c) \<or> truthy_number (f_year c) \<or> truthy_number (f_week c)
      then filter_throwing (checkInstruction toLowerCase newDate c) (base_of toLowerCase c records)
      else Inr (base_of toLowerCase c records))"
  by (simp add: filterInstructions_def base_of_def Let_def)

lemma set_base_of: "set (base_of toLowerCase c records) \<subseteq> set records"
  by (auto simp: base_of_def Let_def split: option.splits if_splits)

lemma base_of_filter: "base_of toLowerCase c records = filter (other_criteria_match toLowerCase c) records"
  unfolding base_of_def other_criteria_match_def Let_def
  by (cases "given (f_priority c)"; cases "given (f_source c)"; cases "given (f_status c)";
      cases "f_deadline c"; cases "f_all c")
     (auto intro!: filter_cong)

lemma checkDate_valid:
  assumes "truthy_criteria c" "\<forall>d. f_date c = Some d \<longrightarrow> newDate d \<noteq> None"
    "s \<noteq> []" "newDate s = Some t"
  shows "checkDate toLowerCase newDate c (Some s) = Inr (satisfies_criteria toLowerCase newDate c t)"
proof -
  have d: "given (f_date c) = f_date c" and dy: "given (f_day c) = f_day c"
    using assms(1) by (auto simp: truthy_criteria_def given_def split: option.splits)
  have m: "truthy_jsval (f_month c) \<longleftrightarrow> f_month c \<noteq> None"
    using assms(1) by (auto simp: truthy_criteria_def truthy_jsval_def split: option.splits jsval.splits)
  have y: "truthy_number (f_year c) \<longleftrightarrow> f_year c \<noteq> None"
    and w: "truthy_number (f_week c) \<longleftrightarrow> f_week c \<noteq> None"
    using assms(1)
    by (auto simp: truthy_criteria_def truthy_number_def split: option.splits jsnumber.splits)
  show ?thesis
    using assms(2,3,4)
    by (auto simp: checkDate_def satisfies_criteria_def d dy m y w Let_def getDayName_def
        getWeekOfMonth_def split: option.splits)
qed

lemma checkDate_absent: "checkDate toLowerCase newDate c None = Inr False"
  by (simp add: checkDate_def)

lemma checkInstruction_valid:
  assumes "truthy_criteria c" "\<forall>d. f_date c = Some d \<longrightarrow> newDate d \<noteq> None"
    "valid_timestamps newDate inst"
  shows "checkInstruction toLowerCase newDate c inst = Inr (temporal_match toLowerCase newDate c inst)"
proof -
  obtain t where t: "added inst \<noteq> []" "newDate (added inst) = Some t"
    using assms(3) by (auto simp: valid_timestamps_def)
  have a: "checkDate toLowerCase newDate c (Some (added inst)) = Inr (satisfies_criteria toLowerCase newDate c t)"
    using checkDate_valid [OF assms(1,2) t] .
  have b: "checkDate toLowerCase newDate c (deadline inst) =
             Inr (timestamp_satisfies toLowerCase newDate c (deadline inst))"
  proof (cases "deadline inst")
    case None
    then show ?thesis by (simp add: checkDate_absent timestamp_satisfies_def)
  next
    case (Some s)
    then obtain u where u: "s \<noteq> []" "newDate s = Some u"
      using assms(3) by (auto simp: valid_timestamps_def)
    show ?thesis
      using checkDate_valid [OF assms(1,2) u] Some u by (simp add: timestamp_satisfies_def)
  qed
  show ?thesis
    using a b t by (simp add: checkInstruction_def temporal_match_def timestamp_satisfies_def)
qed

lemma temporal_match_no_criteria:
  assumes "f_date c = None" "f_day c = None" "f_month c = None" "f_year c = None"
    "f_week c = None" "valid_timestamps newDate inst"
  shows "temporal_match toLowerCase newDate c inst"
  using assms
  by (auto simp: temporal_match_def timestamp_satisfies_def satisfies_criteria_def
      valid_timestamps_def)

lemma filterInstructions_valid:
  assumes "truthy_criteria c" "\<forall>d. f_date c = Some d \<longrightarrow> newDate d \<noteq> None"
    "\<forall>inst\<in>set records. valid_timestamps newDate inst"
  shows "filterInstructions toLowerCase newDate records c =
           Inr (filter (\<lambda>inst. other_criteria_match toLowerCase c inst \<and> temporal_match toLowerCase newDate c inst)
                  records)"
proof (cases "given (f_date c) \<noteq> None \<or> given (f_day c) \<noteq> None \<or>
          truthy_jsval (f_month c) \<or> truthy_number (f_year c) \<or> truthy_number (f_week c)")
  case True
  have "\<forall>inst\<in>set (base_of toLowerCase c records).
          checkInstruction toLowerCase newDate c inst = Inr (temporal_match toLowerCase newDate c inst)"
    using checkInstruction_valid [OF assms(1,2)] assms(3) set_base_of by blast
  then have "filter_throwing (checkInstruction toLowerCase newDate c) (base_of toLowerCase c records) =
          Inr (filter (temporal_match toLowerCase newDate c) (base_of toLowerCase c records))"
    by (rule filter_throwing_total)
  then show ?thesis
    using True by (simp add: filter_with_temporal base_of_filter conj_commute)
next
  case False
  then have none: "f_date c = None" "f_day c = None" "f_month c = None" "f_year c = None"
    "f_week c = None"
    using assms(1)
    by (auto simp: truthy_criteria_def given_def truthy_jsval_def truthy_number_def
        split: option.splits jsval.splits jsnumber.splits if_splits)
  have "filter (\<lambda>inst. other_criteria_match toLowerCase c inst \<and> temporal_match toLowerCase newDate c inst) records =
        filter (other_criteria_match toLowerCase c) records"
    using temporal_match_no_criteria [OF none] assms(3) by (auto intro: filter_cong)
  then show ?thesis
    using False by (simp add: filter_with_temporal base_of_filter)
qed

lemma week2_month8_match:
  "valid_timestamps newDate inst \<Longrightarrow>
   temporal_match toLowerCase newDate week2_month8 inst \<longleftrightarrow>
     in_second_week_of_august newDate (Some (added inst)) \<or>
     in_second_week_of_august newDate (deadline inst)"
  using week_of_month_2
  by (auto simp: temporal_match_def timestamp_satisfies_def satisfies_criteria_def
      week2_month8_def empty_criteria_def in_second_week_of_august_def getWeekOfMonth_def
      split: option.splits)


lemma given_given: "given (given x) = given x"
  by (simp add: given_def split: option.splits)

lemma truthy_kept:
  "truthy_jsval (if truthy_jsval m then m else None) = truthy_jsval m"
  "truthy_number (if truthy_number y then y else None) = truthy_number y"
  by (simp_all add: truthy_jsval_def truthy_number_def)

lemma truthy_given_criteria: "truthy_criteria (given_criteria c)"
  by (auto simp: truthy_criteria_def given_criteria_def given_def truthy_jsval_def
      truthy_number_def split: option.splits)

lemma given_criteria_truthy: "truthy_criteria c \<Longrightarrow> given_criteria c = c"
  by (cases c)
     (auto simp: truthy_criteria_def given_criteria_def given_def truthy_jsval_def
       truthy_number_def split: option.splits jsval.splits jsnumber.splits)

lemma checkDate_given:
  "checkDate toLowerCase newDate (given_criteria c) ts = checkDate toLowerCase newDate c ts"
  by (cases "truthy_jsval (f_month c)"; cases "truthy_number (f_year c)";
      cases "truthy_number (f_week c)")
     (simp_all add: checkDate_def given_criteria_def given_given truthy_jsval_def
       truthy_number_def Let_def cong: if_cong option.case_cong sum.case_cong)

lemma checkInstruction_given:
  "checkInstruction toLowerCase newDate (given_criteria c) =
   checkInstruction toLowerCase newDate c"
  by (rule ext) (simp add: checkInstruction_def checkDate_given cong: sum.case_cong if_cong)

lemma base_of_given: "base_of toLowerCase (given_criteria c) = base_of toLowerCase c"
  by (rule ext) (simp add: base_of_def given_criteria_def)

lemma filterInstructions_given:
  "filterInstructions toLowerCase newDate records (given_criteria c) =
   filterInstructions toLowerCase newDate records c"
  unfolding filter_with_temporal checkInstruction_given base_of_given
  by (simp add: given_criteria_def given_given truthy_kept)

lemma filterInstructions_matches:
  assumes "\<forall>d. given (f_date c) = Some d \<longrightarrow> newDate d \<noteq> None"
    "\<forall>inst\<in>set records. valid_timestamps newDate inst"
  shows "filterInstructions toLowerCase newDate records c =
           Inr (filter (\<lambda>inst. other_criteria_match toLowerCase c inst \<and>
                              temporal_match toLowerCase newDate (given_criteria c) inst)
                  records)"
proof -
  have d: "\<forall>d. f_date (given_criteria c) = Some d \<longrightarrow> newDate d \<noteq> None"
    using assms(1) by (simp add: given_criteria_def)
  have "other_criteria_match toLowerCase (given_criteria c) =
        other_criteria_match toLowerCase c"
    using base_of_given [of toLowerCase c] by (intro ext) (simp add: other_criteria_match_def given_criteria_def)
  then show ?thesis
    using filterInstructions_valid [OF truthy_given_criteria d assms(2), of toLowerCase]
    by (simp add: filterInstructions_given)
qed

lemma checkInstruction_matches:
  assumes "\<forall>d. given (f_date c) = Some d \<longrightarrow> newDate d \<noteq> None"
    "valid_timestamps newDate inst"
  shows "checkInstruction toLowerCase newDate c inst =
           Inr (temporal_match toLowerCase newDate (given_criteria c) inst)"
proof -
  have d: "\<forall>d. f_date (given_criteria c) = Some d \<longrightarrow> newDate d \<noteq> None"
    using assms(1) by (simp add: given_criteria_def)
  show ?thesis
    using checkInstruction_valid [OF truthy_given_criteria d assms(2), of toLowerCase]
    by (simp add: checkInstruction_given)
qed


text \<open>
  Claim C6, amended. A temporal criterion counts as given when its value is truthy: an
  empty \<open>date\<close> or \<open>day\<close> string, a year or week that is 0 or \<open>NaN\<close> are ignored like
  absent criteria. When the given \<open>date\<close> criterion is one that the \<open>Date\<close> constructor
  reads and the timestamps of the records are valid dates, the filter returns, in order,
  exactly the records that pass the criteria outside the temporal group and whose added
  timestamp or deadline satisfies all the given temporal criteria at once. The week of
  the month is the ceiling of the day of the month divided by 7, which is 2 exactly on
  days 8 to 14; with \<open>week=2, month=8\<close> the temporal group matches exactly the records
  whose added timestamp or deadline falls in days 8 to 14 of August (among the records
  that are not soft-deleted, unless deleted records are included).
\<close>

theorem C6_temporal_match:
  assumes "\<forall>d. given (f_date c) = Some d \<longrightarrow> newDate d \<noteq> None"
    and "\<forall>inst\<in>set records. valid_timestamps newDate inst"
  shows "filterInstructions toLowerCase newDate records c =
           Inr (filter (\<lambda>inst. other_criteria_match toLowerCase c inst \<and>
                              temporal_match toLowerCase newDate (given_criteria c) inst)
                  records) \<and>
         (\<forall>inst\<in>set records.
            checkInstruction toLowerCase newDate c inst =
              Inr (temporal_match toLowerCase newDate (given_criteria c) inst)) \<and>
         (truthy_criteria c \<longrightarrow> given_criteria c = c) \<and>
         (\<forall>t. getWeekOfMonth t = \<lceil>real (getDate t) / 7\<rceil> \<and>
              (getWeekOfMonth t = 2 \<longleftrightarrow> 8 \<le> getDate t \<and> getDate t \<le> 14)) \<and>
         filterInstructions toLowerCase newDate records (week2_month8\<lparr>f_all := True\<rparr>) =
           Inr (filter (\<lambda>inst. in_second_week_of_august newDate (Some (added inst)) \<or>
                               in_second_week_of_august newDate (deadline inst)) records) \<and>
         filterInstructions toLowerCase newDate records week2_month8 =
           Inr (filter (\<lambda>inst. \<not> isDeleted inst \<and>
                              (in_second_week_of_august newDate (Some (added inst)) \<or>
                               in_second_week_of_august newDate (deadline inst))) records)"
proof (intro conjI)
  show "filterInstructions toLowerCase newDate records c =
           Inr (filter (\<lambda>inst. other_criteria_match toLowerCase c inst \<and>
                              temporal_match toLowerCase newDate (given_criteria c) inst)
                  records)"
    using filterInstructions_matches [OF assms] .
  show "\<forall>inst\<in>set records.
            checkInstruction toLowerCase newDate c inst =
              Inr (temporal_match toLowerCase newDate (given_criteria c) inst)"
    using checkInstruction_matches [OF assms(1)] assms(2) by blast
  show "truthy_criteria c \<longrightarrow> given_criteria c = c"
    using given_criteria_truthy by blast
  show "\<forall>t. getWeekOfMonth t = \<lceil>real (getDate t) / 7\<rceil> \<and>
              (getWeekOfMonth t = 2 \<longleftrightarrow> 8 \<le> getDate t \<and> getDate t \<le> 14)"
    using week_of_month_2 by (simp add: getWeekOfMonth_def)
  have t1: "truthy_criteria week2_month8" "truthy_criteria (week2_month8\<lparr>f_all := True\<rparr>)"
    and d1: "\<forall>d. f_date week2_month8 = Some d \<longrightarrow> newDate d \<noteq> None"
      "\<forall>d. f_date (week2_month8\<lparr>f_all := True\<rparr>) = Some d \<longrightarrow> newDate d \<noteq> None"
    by (simp_all add: truthy_criteria_def week2_month8_def empty_criteria_def)
  have o1: "\<And>inst. other_criteria_match toLowerCase week2_month8 inst = (\<not> isDeleted inst)"
    and o2: "\<And>inst. other_criteria_match toLowerCase (week2_month8\<lparr>f_all := True\<rparr>) inst"
    by (simp_all add: other_criteria_match_def week2_month8_def empty_criteria_def)
  have s2: "\<And>t. satisfies_criteria toLowerCase newDate (week2_month8\<lparr>f_all := True\<rparr>) t =
                  satisfies_criteria toLowerCase newDate week2_month8 t"
    by (simp add: satisfies_criteria_def)
  have m2: "\<And>inst. temporal_match toLowerCase newDate (week2_month8\<lparr>f_all := True\<rparr>) inst =
                    temporal_match toLowerCase newDate week2_month8 inst"
    by (simp add: temporal_match_def timestamp_satisfies_def s2 cong: option.case_cong)
  show "filterInstructions toLowerCase newDate records (week2_month8\<lparr>f_all := True\<rparr>) =
           Inr (filter (\<lambda>inst. in_second_week_of_august newDate (Some (added inst)) \<or>
                               in_second_week_of_august newDate (deadline inst)) records)"
    using filterInstructions_valid [OF t1(2) d1(2) assms(2), of toLowerCase]
      week2_month8_match [of newDate _ toLowerCase] assms(2)
    by (auto simp: o2 m2 intro: filter_cong)
  show "filterInstructions toLowerCase newDate records week2_month8 =
           Inr (filter (\<lambda>inst. \<not> isDeleted inst \<and>
                              (in_second_week_of_august newDate (Some (added inst)) \<or>
                               in_second_week_of_august newDate (deadline inst))) records)"
    using filterInstructions_valid [OF t1(1) d1(1) assms(2), of toLowerCase]
      week2_month8_match [of newDate _ toLowerCase] assms(2)
    by (auto simp: o1 intro: filter_cong)
qed

theorem C6_temporal_match_witness:
  "given (f_date week2_month8) = None \<and>
   example_newDate ''2025-08-10'' \<noteq> None \<and>
   valid_timestamps example_newDate example_instruction \<and>
   filterInstructions example_toLowerCase example_newDate [example_instruction]
     (empty_criteria\<lparr>f_date := Some ''2025-08-10''\<rparr>) = Inr [example_instruction] \<and>
   filterInstructions example_toLowerCase example_newDate [example_instruction]
     week2_month8 = Inr [example_instruction] \<and>
   filterInstructions example_toLowerCase example_newDate [example_instruction]
     (empty_criteria\<lparr>f_month := Some (JNumber 9)\<rparr>) = Inr []"
proof -
  have n: "given (f_date week2_month8) = None"
    "given (f_date (empty_criteria\<lparr>f_month := Some (JNumber 9)\<rparr>)) = None"
    by (simp_all add: week2_month8_def empty_criteria_def)
  then have d: "\<forall>d. given (f_date week2_month8) = Some d \<longrightarrow> example_newDate d \<noteq> None"
    "\<forall>d. given (f_date (empty_criteria\<lparr>f_month := Some (JNumber 9)\<rparr>)) = Some d \<longrightarrow>
         example_newDate d \<noteq> None"
    by simp_all
  have v1: "valid_timestamps example_newDate example_instruction"
    by (simp add: valid_timestamps_def example_instruction_def example_newDate_def
        example_now_def)
  then have v: "\<forall>inst\<in>set [example_instruction]. valid_timestamps example_newDate inst"
    by simp
  have i: "in_second_week_of_august example_newDate (Some (added example_instruction))"
    by (simp add: in_second_week_of_august_def example_instruction_def example_newDate_def
        example_now_def)
  have e: "\<not> isDeleted example_instruction"
    by (simp add: example_instruction_def)
  have a: "filterInstructions example_toLowerCase example_newDate [example_instruction]
             week2_month8 =
          Inr (filter (\<lambda>inst. \<not> isDeleted inst \<and>
                 (in_second_week_of_august example_newDate (Some (added inst)) \<or>
                  in_second_week_of_august example_newDate (deadline inst)))
               [example_instruction])"
    using C6_temporal_match [OF d(1) v] by blast
  have g: "given_criteria (empty_criteria\<lparr>f_month := Some (JNumber 9)\<rparr>) =
             empty_criteria\<lparr>f_month := Some (JNumber 9)\<rparr>"
    by (simp add: given_criteria_def empty_criteria_def truthy_jsval_def truthy_number_def)
  have m: "\<not> temporal_match example_toLowerCase example_newDate
               (empty_criteria\<lparr>f_month := Some (JNumber 9)\<rparr>) example_instruction"
    by (simp add: temporal_match_def timestamp_satisfies_def satisfies_criteria_def
        empty_criteria_def example_instruction_def example_newDate_def example_now_def)
  have b: "filterInstructions example_toLowerCase example_newDate [example_instruction]
             (empty_criteria\<lparr>f_month := Some (JNumber 9)\<rparr>) =
          Inr (filter (\<lambda>inst. other_criteria_match example_toLowerCase
                       (empty_criteria\<lparr>f_month := Some (JNumber 9)\<rparr>) inst \<and>
                     temporal_match example_toLowerCase example_newDate
                       (given_criteria (empty_criteria\<lparr>f_month := Some (JNumber 9)\<rparr>)) inst)
                 [example_instruction])"
    using C6_temporal_match [OF d(2) v] by blast
  have x: "example_newDate ''2025-08-10'' \<noteq> None"
    by (simp add: example_newDate_def)
  have gd: "given (f_date (empty_criteria\<lparr>f_date := Some ''2025-08-10''\<rparr>)) =
              Some ''2025-08-10''"
    by (simp add: empty_criteria_def)
  have dd: "\<forall>d. given (f_date (empty_criteria\<lparr>f_date := Some ''2025-08-10''\<rparr>)) = Some d \<longrightarrow>
              example_newDate d \<noteq> None"
    using x gd by simp
  have gc: "given_criteria (empty_criteria\<lparr>f_date := Some ''2025-08-10''\<rparr>) =
             empty_criteria\<lparr>f_date := Some ''2025-08-10''\<rparr>"
    by (simp add: given_criteria_def empty_criteria_def truthy_jsval_def truthy_number_def)
  have md: "temporal_match example_toLowerCase example_newDate
               (empty_criteria\<lparr>f_date := Some ''2025-08-10''\<rparr>) example_instruction"
    by (simp add: temporal_match_def timestamp_satisfies_def satisfies_criteria_def
        empty_criteria_def example_instruction_def example_newDate_def example_now_def)
  have od: "other_criteria_match example_toLowerCase
              (empty_criteria\<lparr>f_date := Some ''2025-08-10''\<rparr>) example_instruction"
    by (simp add: other_criteria_match_def empty_criteria_def example_instruction_def)
  have c: "filterInstructions example_toLowerCase example_newDate [example_instruction]
             (empty_criteria\<lparr>f_date := Some ''2025-08-10''\<rparr>) =
          Inr (filter (\<lambda>inst. other_criteria_match example_toLowerCase
                       (empty_criteria\<lparr>f_date := Some ''2025-08-10''\<rparr>) inst \<and>
                     temporal_match example_toLowerCase example_newDate
                       (given_criteria (empty_criteria\<lparr>f_date := Some ''2025-08-10''\<rparr>)) inst)
                 [example_instruction])"
    using C6_temporal_match [OF dd v] by blast
  have r1: "filterInstructions example_toLowerCase example_newDate [example_instruction]
     week2_month8 = Inr [example_instruction]"
    using a i e by simp
  have r2: "filterInstructions example_toLowerCase example_newDate [example_instruction]
     (empty_criteria\<lparr>f_month := Some (JNumber 9)\<rparr>) = Inr []"
    using b g m by simp
  have r3: "filterInstructions example_toLowerCase example_newDate [example_instruction]
     (empty_criteria\<lparr>f_date := Some ''2025-08-10''\<rparr>) = Inr [example_instruction]"
    using c gc md od by simp
  show ?thesis
    using n(1) x v1 r1 r2 r3 by blast
qed

text \<open>
  The claim as it is written fails: with the criterion \<open>year = 0\<close> the filter returns
  the example record, whose added timestamp is in 2025 and which has no deadline.
\<close>

theorem C6_counterexample:
  "filterInstructions example_toLowerCase example_newDate [example_instruction]
     (empty_criteria\<lparr>f_year := Some (Number 0)\<rparr>) = Inr [example_instruction] \<and>
   map_option getFullYear (example_newDate (added example_instruction)) = Some 2025 \<and>
   deadline example_instruction = None \<and>
   \<not> temporal_match example_toLowerCase example_newDate
       (empty_criteria\<lparr>f_year := Some (Number 0)\<rparr>) example_instruction"
  by (simp add: filterInstructions_def empty_criteria_def truthy_jsval_def truthy_number_def
      example_instruction_def example_newDate_def example_now_def temporal_match_def
      timestamp_satisfies_def satisfies_criteria_def)

text \<open>
  Claim C7. With the empty criteria the filter returns exactly the records that are not
  soft-deleted, in their original order. The filter is a function of the list it is
  given (the source copies the array and every \<open>filter\<close> call builds a new one), and the
  commands that filter leave the three files as they were.
\<close>

theorem C7_empty_criteria:
  "filterInstructions toLowerCase newDate records empty_criteria =
     Inr (filter (\<lambda>inst. \<not> isDeleted inst) records) \<and>
   subseq (filter (\<lambda>inst. \<not> isDeleted inst) records) records \<and>
   snd (filter_command toLowerCase newDate argv st) = st"
  by (simp add: filter_empty_criteria filter_command_state)

theorem C7_empty_criteria_witness:
  "filterInstructions example_toLowerCase example_newDate
     [example_instruction,
      example_instruction\<lparr>inst_id := 2, isDeleted := True, deletedAt := Some example_now\<rparr>,
      example_instruction\<lparr>inst_id := 3\<rparr>] empty_criteria =
   Inr [example_instruction, example_instruction\<lparr>inst_id := 3\<rparr>]"
  using C7_empty_criteria [of example_toLowerCase example_newDate
     "[example_instruction,
      example_instruction\<lparr>inst_id := 2, isDeleted := True, deletedAt := Some example_now\<rparr>,
      example_instruction\<lparr>inst_id := 3\<rparr>]" example_filter_argv initial_state]
  by (simp add: example_instruction_def)




section \<open>Properties of the month resolution\<close>

lemma monthMap_distinct: "distinct (map fst monthMap)"
  by code_simp

lemma parseInt_Nil: "parseInt [] = None"
  by code_simp

lemma parseMonth_lookup:
  "monthInput \<noteq> [] \<Longrightarrow> \<forall>n. parseInt monthInput = Some n \<longrightarrow> n < 1 \<or> 12 < n \<Longrightarrow>
   parseMonth toLowerCase monthInput = monthMap_get (trim (toLowerCase monthInput))"
  by (cases "parseInt monthInput") (auto simp: parseMonth_def)

lemma monthCoercion_number:
  assumes "parseInt monthInput = Some n" "1 \<le> n" "n \<le> 12"
  shows "monthCoercion toLowerCase (Some monthInput) = Inr (Some (JNumber n))"
proof -
  have "monthInput \<noteq> []"
    using assms(1) parseInt_Nil by auto
  then have "parseMonth toLowerCase monthInput = Some (JNumber n)"
    using assms by (simp add: parseMonth_def)
  then show ?thesis
    by (simp add: monthCoercion_def)
qed

lemma monthCoercion_lookup:
  assumes "monthInput \<noteq> []" "\<forall>n. parseInt monthInput = Some n \<longrightarrow> n < 1 \<or> 12 < n"
    "map_of monthMap (trim (toLowerCase monthInput)) = Some m"
  shows "monthCoercion toLowerCase (Some monthInput) = Inr (Some (JNumber m))"
proof -
  have "monthMap_get (trim (toLowerCase monthInput)) = Some (JNumber m)"
    using assms(3) by (simp add: monthMap_get_def)
  then have "parseMonth toLowerCase monthInput = Some (JNumber m)"
    using parseMonth_lookup [OF assms(1,2)] by simp
  then show ?thesis
    by (simp add: monthCoercion_def)
qed

lemma monthCoercion_error:
  assumes "\<forall>n. parseInt monthInput = Some n \<longrightarrow> n < 1 \<or> 12 < n"
    "trim (toLowerCase monthInput) \<notin> set month_names"
    "trim (toLowerCase monthInput) \<notin> set Object_prototype"
  shows "monthCoercion toLowerCase (Some monthInput) =
     Inl (''Invalid month: '' @ [CHR 0x27] @ monthInput @ [CHR 0x27] @ ''.'')"
proof -
  have "map_of monthMap (trim (toLowerCase monthInput)) = None"
    using assms(2) by (simp add: month_names_def map_of_eq_None_iff)
  then have g: "monthMap_get (trim (toLowerCase monthInput)) = None"
    using assms(3) by (simp add: monthMap_get_def)
  have "parseMonth toLowerCase monthInput = None"
  proof (cases "monthInput = []")
    case True
    then show ?thesis by (simp add: parseMonth_def)
  next
    case False
    then show ?thesis
      using parseMonth_lookup [OF False assms(1)] g by simp
  qed
  then show ?thesis
    by (simp add: monthCoercion_def)
qed

text \<open>The examples of the specification, and a name behind a no-break space (U+00A0),
  which \<open>trim\<close> removes.\<close>

lemma monthCoercion_examples:
  "monthCoercion example_toLowerCase (Some ''Aug'') = Inr (Some (JNumber 8))"
  "monthCoercion example_toLowerCase (Some ''August'') = Inr (Some (JNumber 8))"
  "monthCoercion example_toLowerCase (Some ''13'') = Inl ''Invalid month: '13'.''"
  "monthCoercion example_toLowerCase (Some ([CHR 0xC2, CHR 0xA0] @ ''aug'')) =
     Inr (Some (JNumber 8))"
  "monthCoercion toLowerCase None = Inr None"
  by code_simp+

lemma monthCoercion_numeric_strings:
  "map (\<lambda>s. monthCoercion toLowerCase (Some s)) numeric_month_strings =
     map (\<lambda>n. Inr (Some (JNumber n))) [1..12]"
  by code_simp

text \<open>What the lookup does on the name of an inherited property: no error is raised.\<close>

lemma monthCoercion_inherited_property:
  "monthCoercion example_toLowerCase (Some ''constructor'') =
     Inr (Some (JObject ''constructor''))"
  by code_simp

text \<open>
  Claim C9, evaluated on the code. \<open>parseMonth\<close> recognises a number with
  \<open>parseInt(monthInput, 10)\<close>, which reads the longest run of digits at the front of the
  input and ignores what follows. So \<open>8abc\<close>, which is not one of the numeric strings
  1 to 12 and not a month name, resolves to 8 and no error names it; so do \<open>8.5\<close> and
  \<open>12th\<close>, which resolve to 8 and 12.
\<close>

theorem C9_month_numeric_prefix:
  "''8abc'' \<notin> set numeric_month_strings \<and>
   ''8abc'' \<notin> set month_names \<and>
   parseInt ''8abc'' = Some 8 \<and>
   monthCoercion toLowerCase (Some ''8abc'') = Inr (Some (JNumber 8)) \<and>
   monthCoercion toLowerCase (Some ''8.5'') = Inr (Some (JNumber 8)) \<and>
   monthCoercion toLowerCase (Some ''12th'') = Inr (Some (JNumber 12))"
  by code_simp

end
